theory Spec2Isabelle
  imports Main "HOL-Library.Word" "HOL-Library.AList" "HOL-Library.Product_Lexorder"
begin

section \<open>The region file of \<^verbatim>\<open>nbt/region.py\<close>\<close>

text \<open>
  A shallow embedding of class \<^verbatim>\<open>RegionFile\<close>. Python integers are \<open>int\<close>, bytes are
  8-bit words, the backing file object is a byte list with a position, the two dictionaries
  \<^verbatim>\<open>self.header\<close> and \<^verbatim>\<open>self.chunk_headers\<close> are association lists in insertion order,
  and every \<^verbatim>\<open>raise\<close> is an \<open>Inl\<close> result that carries the state at the raise.
\<close>

subsection \<open>Exceptions\<close>

text \<open>
  The exception classes of the module (each with its message; the \<^verbatim>\<open>%d\<close> arguments of a
  message are not formatted in), and the built-in exceptions the code can run into:
  \<^verbatim>\<open>KeyError\<close> of a dictionary lookup, \<^verbatim>\<open>IndexError\<close> of a list index, \<^verbatim>\<open>TypeError\<close> of
  comparing \<^verbatim>\<open>None\<close> with a number, \<^verbatim>\<open>struct.error\<close> of \<^verbatim>\<open>pack\<close> and \<^verbatim>\<open>unpack\<close>, and the
  error of seeking to a negative position.
\<close>

datatype error =
    NoRegionHeader string
  | RegionHeaderError string
  | ChunkHeaderError string
  | ChunkDataError string
  | InconceivedChunk string
  | KeyError
  | IndexError
  | TypeError
  | StructError
  | SeekError

text \<open>The subclasses of \<^verbatim>\<open>RegionFileFormatError\<close>; \<^verbatim>\<open>InconceivedChunk\<close> is a \<^verbatim>\<open>LookupError\<close>.\<close>

fun is_RegionFileFormatError :: "error \<Rightarrow> bool" where
  "is_RegionFileFormatError (NoRegionHeader m) = True"
| "is_RegionFileFormatError (RegionHeaderError m) = True"
| "is_RegionFileFormatError (ChunkHeaderError m) = True"
| "is_RegionFileFormatError (ChunkDataError m) = True"
| "is_RegionFileFormatError e = False"

fun is_LookupError :: "error \<Rightarrow> bool" where
  "is_LookupError (InconceivedChunk m) = True"
| "is_LookupError KeyError = True"
| "is_LookupError IndexError = True"
| "is_LookupError e = False"

subsection \<open>Statements that may raise, over a state\<close>

type_synonym ('s, 'a) exn = "'s \<Rightarrow> (error + 'a) \<times> 's"

definition returnE :: "'a \<Rightarrow> ('s, 'a) exn" where
  "returnE a = (\<lambda>s. (Inr a, s))"

definition raiseE :: "error \<Rightarrow> ('s, 'a) exn" where
  "raiseE e = (\<lambda>s. (Inl e, s))"

definition bindE :: "('s, 'a) exn \<Rightarrow> ('a \<Rightarrow> ('s, 'b) exn) \<Rightarrow> ('s, 'b) exn" where
  "bindE m f = (\<lambda>s. case m s of (Inl e, s') \<Rightarrow> (Inl e, s') | (Inr a, s') \<Rightarrow> f a s')"

definition thenE :: "('s, 'a) exn \<Rightarrow> ('s, 'b) exn \<Rightarrow> ('s, 'b) exn" where
  "thenE m n = bindE m (\<lambda>_. n)"

text \<open>A value that raised or not, as a statement.\<close>

definition liftE :: "error + 'a \<Rightarrow> ('s, 'a) exn" where
  "liftE v = (\<lambda>s. (v, s))"

text \<open>\<^verbatim>\<open>for a in as: body(a)\<close>; an exception ends the loop.\<close>

primrec forE :: "'a list \<Rightarrow> ('a \<Rightarrow> ('s, unit) exn) \<Rightarrow> ('s, unit) exn" where
  "forE [] body = returnE ()"
| "forE (a # as) body = thenE (body a) (forE as body)"

subsection \<open>The file object\<close>

type_synonym byte = "8 word"

text \<open>
  A binary file opened \<^verbatim>\<open>r+b\<close> (or a \<^verbatim>\<open>BytesIO\<close>): its bytes and its position. A read
  stops at the end of the file; a write past the end fills the gap with zero bytes, and a
  write of no bytes changes nothing.
\<close>

record pyfile =
  contents :: "byte list"
  pos :: nat

definition py_seek :: "int \<Rightarrow> (pyfile, int) exn" where
  "py_seek n = (\<lambda>f. if n < 0 then (Inl SeekError, f) else (Inr n, f\<lparr>pos := nat n\<rparr>))"

definition py_seek_end :: "(pyfile, int) exn" where
  "py_seek_end = (\<lambda>f. (Inr (int (length (contents f))), f\<lparr>pos := length (contents f)\<rparr>))"

definition py_tell :: "(pyfile, int) exn" where
  "py_tell = (\<lambda>f. (Inr (int (pos f)), f))"

definition py_read :: "int \<Rightarrow> (pyfile, byte list) exn" where
  "py_read n = (\<lambda>f.
     let bs = (if n < 0 then drop (pos f) (contents f)
               else take (nat n) (drop (pos f) (contents f)))
     in (Inr bs, f\<lparr>pos := pos f + length bs\<rparr>))"

text \<open>The bytes of a file after the bytes \<open>bs\<close> are written at the position \<open>p\<close>.\<close>

definition write_at :: "byte list \<Rightarrow> nat \<Rightarrow> byte list \<Rightarrow> byte list" where
  "write_at cs p bs =
     (let c = cs @ replicate (p - length cs) 0
      in take p c @ bs @ drop (p + length bs) c)"

definition py_write :: "byte list \<Rightarrow> (pyfile, unit) exn" where
  "py_write bs = (\<lambda>f.
     if bs = [] then (Inr (), f)
     else (Inr (), f\<lparr>contents := write_at (contents f) (pos f) bs,
                      pos := pos f + length bs\<rparr>))"

subsection \<open>\<^verbatim>\<open>struct.pack\<close> and \<^verbatim>\<open>struct.unpack\<close>, big-endian\<close>

definition be_int :: "byte list \<Rightarrow> int" where
  "be_int bs = foldl (\<lambda>acc b. acc * 256 + uint b) 0 bs"

text \<open>\<^verbatim>\<open>unpack(">I", bs)[0]\<close>, \<^verbatim>\<open>unpack(">B", bs)[0]\<close> and \<^verbatim>\<open>unpack(">IB", bs)\<close>: the buffer
  must have the size of the format.\<close>

definition unpack_I :: "byte list \<Rightarrow> error + int" where
  "unpack_I bs = (if length bs = 4 then Inr (be_int bs) else Inl StructError)"

definition unpack_B :: "byte list \<Rightarrow> error + int" where
  "unpack_B bs = (if length bs = 1 then Inr (uint (hd bs)) else Inl StructError)"

definition unpack_IB :: "byte list \<Rightarrow> error + (int \<times> int)" where
  "unpack_IB bs =
     (if length bs = 5 then Inr (be_int (take 4 bs), uint (bs ! 4)) else Inl StructError)"

text \<open>The four bytes of \<^verbatim>\<open>pack(">I", n)\<close>; a number outside the format's range raises.\<close>

definition be_bytes :: "int \<Rightarrow> byte list" where
  "be_bytes n = [word_of_int (n div 16777216), word_of_int (n div 65536),
                 word_of_int (n div 256), word_of_int n]"

definition pack_I :: "int \<Rightarrow> error + byte list" where
  "pack_I n = (if 0 \<le> n \<and> n < 4294967296 then Inr (be_bytes n) else Inl StructError)"

definition pack_B :: "int \<Rightarrow> error + byte list" where
  "pack_B n = (if 0 \<le> n \<and> n < 256 then Inr [word_of_int n] else Inl StructError)"

definition pack_IB :: "int \<Rightarrow> int \<Rightarrow> error + byte list" where
  "pack_IB n m =
     (if 0 \<le> n \<and> n < 4294967296 \<and> 0 \<le> m \<and> m < 256
      then Inr (be_bytes n @ [word_of_int m]) else Inl StructError)"

subsection \<open>The codecs the module calls\<close>

text \<open>
  The tag-tree codec of \<^verbatim>\<open>nbt.py\<close> and the \<^verbatim>\<open>zlib\<close> and \<^verbatim>\<open>gzip\<close> modules are not part
  of the region file: they are parameters. \<open>'p\<close> is the type of the \<^verbatim>\<open>NBTFile\<close> values;
  a function that can raise returns \<open>Inl\<close> of the exception's text \<^verbatim>\<open>str(e)\<close>.
\<close>

record 'p codec =
  nbt_write :: "'p \<Rightarrow> byte list"
  nbt_parse :: "byte list \<Rightarrow> string + 'p"
  zlib_compress :: "byte list \<Rightarrow> byte list"
  zlib_decompress :: "byte list \<Rightarrow> string + byte list"
  gzip_decompress :: "byte list \<Rightarrow> string + byte list"

subsection \<open>The class \<^verbatim>\<open>RegionFile\<close>\<close>

definition SECTORLEN :: int where "SECTORLEN = 4096"

definition STATUS_CHUNK_OVERLAPPING :: int where "STATUS_CHUNK_OVERLAPPING = - 5"
definition STATUS_CHUNK_MISMATCHED_LENGTHS :: int where "STATUS_CHUNK_MISMATCHED_LENGTHS = - 4"
definition STATUS_CHUNK_ZERO_LENGTH :: int where "STATUS_CHUNK_ZERO_LENGTH = - 3"
definition STATUS_CHUNK_IN_HEADER :: int where "STATUS_CHUNK_IN_HEADER = - 2"
definition STATUS_CHUNK_OUT_OF_FILE :: int where "STATUS_CHUNK_OUT_OF_FILE = - 1"
definition STATUS_CHUNK_OK :: int where "STATUS_CHUNK_OK = 0"
definition STATUS_CHUNK_NOT_CREATED :: int where "STATUS_CHUNK_NOT_CREATED = 1"

lemmas status_defs =
  STATUS_CHUNK_OVERLAPPING_def STATUS_CHUNK_MISMATCHED_LENGTHS_def
  STATUS_CHUNK_ZERO_LENGTH_def STATUS_CHUNK_IN_HEADER_def STATUS_CHUNK_OUT_OF_FILE_def
  STATUS_CHUNK_OK_def STATUS_CHUNK_NOT_CREATED_def

text \<open>
  \<^verbatim>\<open>self.header[x,z] = (offset, sectionlength, timestamp, status)\<close> and
  \<^verbatim>\<open>self.chunk_headers[x,z] = (length, compression, chunk_status)\<close>, where \<^verbatim>\<open>None\<close> is
  \<open>None\<close>. The tuples of \<^verbatim>\<open>self.header\<close> are compared by \<^verbatim>\<open>sorted\<close>: lexicographically,
  which is the order of the product type here.
\<close>

type_synonym header_entry = "int \<times> int \<times> int \<times> int"
type_synonym chunk_header_entry = "int option \<times> int option \<times> int"

record region =
  file' :: pyfile
  size' :: int
  header :: "((int \<times> int) \<times> header_entry) list"
  chunk_headers :: "((int \<times> int) \<times> chunk_header_entry) list"

text \<open>The calls on \<^verbatim>\<open>self.file\<close>, and the reads and writes of the two dictionaries.\<close>

definition on_file :: "(pyfile, 'a) exn \<Rightarrow> (region, 'a) exn" where
  "on_file m = (\<lambda>r. case m (file' r) of (v, f) \<Rightarrow> (v, r\<lparr>file' := f\<rparr>))"

definition file_seek :: "int \<Rightarrow> (region, int) exn" where
  "file_seek n = on_file (py_seek n)"

definition file_seek_end :: "(region, int) exn" where
  "file_seek_end = on_file py_seek_end"

definition file_tell :: "(region, int) exn" where
  "file_tell = on_file py_tell"

definition file_read :: "int \<Rightarrow> (region, byte list) exn" where
  "file_read n = on_file (py_read n)"

definition file_write :: "byte list \<Rightarrow> (region, unit) exn" where
  "file_write bs = on_file (py_write bs)"

definition header_get :: "int \<Rightarrow> int \<Rightarrow> (region, header_entry) exn" where
  "header_get x z = (\<lambda>r. case map_of (header r) (x, z) of
     None \<Rightarrow> (Inl KeyError, r) | Some e \<Rightarrow> (Inr e, r))"

definition header_set :: "int \<Rightarrow> int \<Rightarrow> header_entry \<Rightarrow> (region, unit) exn" where
  "header_set x z e = (\<lambda>r. (Inr (), r\<lparr>header := AList.update (x, z) e (header r)\<rparr>))"

definition chunk_headers_get :: "int \<Rightarrow> int \<Rightarrow> (region, chunk_header_entry) exn" where
  "chunk_headers_get x z = (\<lambda>r. case map_of (chunk_headers r) (x, z) of
     None \<Rightarrow> (Inl KeyError, r) | Some e \<Rightarrow> (Inr e, r))"

definition chunk_headers_set :: "int \<Rightarrow> int \<Rightarrow> chunk_header_entry \<Rightarrow> (region, unit) exn" where
  "chunk_headers_set x z e =
     (\<lambda>r. (Inr (), r\<lparr>chunk_headers := AList.update (x, z) e (chunk_headers r)\<rparr>))"

text \<open>\<^verbatim>\<open>range(32)\<close> and \<^verbatim>\<open>range(0, 4096, 4)\<close>.\<close>

definition range32 :: "int list" where
  "range32 = map int [0..<32]"

definition range_0_4096_4 :: "int list" where
  "range_0_4096_4 = map (\<lambda>k. 4 * int k) [0..<1024]"

text \<open>\<^verbatim>\<open>get_size\<close>: \<^verbatim>\<open>self.file.seek(0, SEEK_END)\<close>.\<close>

definition get_size :: "(region, int) exn" where
  "get_size = file_seek_end"

text \<open>\<^verbatim>\<open>_bytes_to_sector\<close>: \<^verbatim>\<open>divmod\<close> rounds to minus infinity, as \<open>div\<close> and \<open>mod\<close> do.\<close>

definition bytes_to_sector :: "int \<Rightarrow> int \<Rightarrow> int" where
  "bytes_to_sector bsize sectorlen =
     (let sectors = bsize div sectorlen; remainder = bsize mod sectorlen
      in if remainder = 0 then sectors else sectors + 1)"

definition init_header :: "(region, unit) exn" where
  "init_header =
     forE range32 (\<lambda>x. forE range32 (\<lambda>z. header_set x z (0, 0, 0, STATUS_CHUNK_NOT_CREATED)))"

text \<open>The \<^verbatim>\<open>if\<close> chain of \<^verbatim>\<open>parse_header\<close> (lines 174 to 193).\<close>

definition header_status :: "int \<Rightarrow> int \<Rightarrow> int \<Rightarrow> int" where
  "header_status offset length' fsize =
     (if offset = 0 \<and> length' = 0 then STATUS_CHUNK_NOT_CREATED
      else if length' = 0 then STATUS_CHUNK_MISMATCHED_LENGTHS
      else if offset < 2 \<and> offset \<noteq> 0 then STATUS_CHUNK_IN_HEADER
      else if (offset + length') * 4096 > fsize then STATUS_CHUNK_OUT_OF_FILE
      else STATUS_CHUNK_OK)"

text \<open>The body of the loop of \<^verbatim>\<open>parse_header\<close>, for one \<^verbatim>\<open>index\<close>.\<close>

definition parse_header_index :: "int \<Rightarrow> (region, unit) exn" where
  "parse_header_index index =
     thenE (file_seek index)
    (bindE (file_read 4) (\<lambda>bs.
     bindE (liftE (unpack_IB (0 # bs))) (\<lambda>(offset, length').
     thenE (file_seek (index + 4096))
    (bindE (file_read 4) (\<lambda>ts.
     bindE (liftE (unpack_I ts)) (\<lambda>timestamp.
     let x = (index div 4) mod 32; z = (index div 4) div 32 in
     (\<lambda>r. header_set x z (offset, length', timestamp, header_status offset length' (size' r)) r)))))))"

definition parse_header :: "(region, unit) exn" where
  "parse_header =
     bindE get_size (\<lambda>sz.
     thenE (\<lambda>r. (Inr (), r\<lparr>size' := sz\<rparr>))
     (if sz = 0 then init_header
      else if sz < 8192 then
        thenE init_header
          (raiseE (NoRegionHeader ''The region file is too small in size to have a header.''))
      else forE range_0_4096_4 parse_header_index))"

text \<open>The body of the loops of \<^verbatim>\<open>parse_chunk_headers\<close>, for one \<^verbatim>\<open>x, z\<close>.\<close>

definition read_chunk_header :: "int \<Rightarrow> (region, int \<times> int) exn" where
  "read_chunk_header offset =
     thenE (file_seek (offset * 4096))
    (bindE (file_read 4) (\<lambda>bs.
     bindE (liftE (unpack_I bs)) (\<lambda>length'.
     bindE (file_read 1) (\<lambda>b.
     bindE (liftE (unpack_B b)) (\<lambda>compression.
     returnE (length', compression))))))"

definition parse_chunk_headers_xz :: "int \<Rightarrow> int \<Rightarrow> (region, unit) exn" where
  "parse_chunk_headers_xz x z =
     bindE (header_get x z) (\<lambda>(offset, region_header_length, timestamp, status).
     if status = STATUS_CHUNK_NOT_CREATED then
       chunk_headers_set x z (None, None, STATUS_CHUNK_NOT_CREATED)
     else if status = STATUS_CHUNK_OK then
       bindE (read_chunk_header offset) (\<lambda>(length', compression).
       chunk_headers_set x z (Some length', Some compression,
         (if length' = 0 then STATUS_CHUNK_ZERO_LENGTH
          else if length' + 4 > region_header_length * 4096 then STATUS_CHUNK_MISMATCHED_LENGTHS
          else STATUS_CHUNK_OK)))
     else if status = STATUS_CHUNK_OUT_OF_FILE then
       (\<lambda>r. if offset * 4096 + 5 < size' r then
           bindE (read_chunk_header offset) (\<lambda>(length', compression).
           chunk_headers_set x z (Some length', Some compression, STATUS_CHUNK_OUT_OF_FILE)) r
         else chunk_headers_set x z (None, None, STATUS_CHUNK_OUT_OF_FILE) r)
     else chunk_headers_set x z (None, None, status))"

definition parse_chunk_headers :: "(region, unit) exn" where
  "parse_chunk_headers = forE range32 (\<lambda>x. forE range32 (\<lambda>z. parse_chunk_headers_xz x z))"

text \<open>
  \<^verbatim>\<open>__init__\<close> with a file object: the constructor returns the object, or raises and
  returns none.
\<close>

definition RegionFile_init :: "pyfile \<Rightarrow> error + region" where
  "RegionFile_init fileobj =
     (case thenE parse_header parse_chunk_headers
             \<lparr>file' = fileobj, size' = 0, header = [], chunk_headers = []\<rparr> of
        (Inl e, r) \<Rightarrow> Inl e
      | (Inr u, r) \<Rightarrow> Inr r)"

text \<open>A loop that builds a local value: \<^verbatim>\<open>for a in as: acc = body(a, acc)\<close>.\<close>

primrec foldE :: "'a list \<Rightarrow> ('a \<Rightarrow> 'b \<Rightarrow> ('s, 'b) exn) \<Rightarrow> 'b \<Rightarrow> ('s, 'b) exn" where
  "foldE [] body acc = returnE acc"
| "foldE (a # as) body acc = bindE (body a acc) (foldE as body)"

text \<open>\<^verbatim>\<open>get_chunk_coords\<close>: a dictionary \<^verbatim>\<open>{'x': x, 'z': z, 'length': length}\<close> is a triple.\<close>

definition get_chunk_coords :: "(region, (int \<times> int \<times> chunk_header_entry) list) exn" where
  "get_chunk_coords =
     foldE range32 (\<lambda>x. foldE range32 (\<lambda>z chunks.
       bindE (chunk_headers_get x z) (\<lambda>length'.
       bindE (header_get x z) (\<lambda>e.
       returnE (if fst e > 0 then chunks @ [(x, z, length')] else chunks))))) []"

definition get_chunks :: "(region, (int \<times> int \<times> chunk_header_entry) list) exn" where
  "get_chunks = get_chunk_coords"

definition get_timestamp :: "int \<Rightarrow> int \<Rightarrow> (region, int) exn" where
  "get_timestamp x z = bindE (header_get x z) (\<lambda>(offset, length', timestamp, status).
     returnE timestamp)"

definition chunk_count :: "(region, int) exn" where
  "chunk_count = bindE get_chunk_coords (\<lambda>chunks. returnE (int (length chunks)))"

text \<open>
  The \<^verbatim>\<open>try\<close> block of \<^verbatim>\<open>get_chunk\<close> (lines 334 to 350): the bytes are decompressed as
  the compression byte says (as they are, when it is neither 1 nor 2) and parsed. An
  exception \<^verbatim>\<open>e\<close> is raised again as \<^verbatim>\<open>ChunkDataError(str(e))\<close> when \<^verbatim>\<open>str(e)\<close> is not
  empty; when it is empty nothing is raised and the method returns \<^verbatim>\<open>None\<close>.
\<close>

definition decode_chunk :: "'p codec \<Rightarrow> int \<Rightarrow> byte list \<Rightarrow> error + 'p option" where
  "decode_chunk c compression chunk =
     (case (case (if compression = 1 then gzip_decompress c chunk
                  else if compression = 2 then zlib_decompress c chunk
                  else Inr chunk) of
              Inl err \<Rightarrow> Inl err
            | Inr data \<Rightarrow> nbt_parse c data) of
        Inr nbt \<Rightarrow> Inr (Some nbt)
      | Inl err \<Rightarrow> if err \<noteq> [] then Inl (ChunkDataError err) else Inr None)"

definition get_chunk :: "'p codec \<Rightarrow> int \<Rightarrow> int \<Rightarrow> (region, 'p option) exn" where
  "get_chunk c x z =
     bindE (header_get x z) (\<lambda>(offset, length', timestamp, region_header_status).
     if region_header_status = STATUS_CHUNK_NOT_CREATED then
       raiseE (InconceivedChunk ''Chunk is not created'')
     else if region_header_status = STATUS_CHUNK_IN_HEADER then
       raiseE (RegionHeaderError ''Chunk %d,%d is in the region header'')
     else if region_header_status = STATUS_CHUNK_MISMATCHED_LENGTHS then
       raiseE (RegionHeaderError ''Chunk %d,%d is has zero length'')
     else if region_header_status = STATUS_CHUNK_OUT_OF_FILE then
       raiseE (RegionHeaderError ''Chunk %d,%d is partially/completely outside the file'')
     else if region_header_status = STATUS_CHUNK_OK then
       bindE (chunk_headers_get x z) (\<lambda>(length', compression, chunk_header_status).
       if chunk_header_status = STATUS_CHUNK_ZERO_LENGTH then
         raiseE (ChunkHeaderError ''The length of chunk %d,%d is 0 sectors'')
       else
         (case length' of
            None \<Rightarrow> raiseE (ChunkHeaderError ''Chunk length is 0 bytes'')
          | Some len \<Rightarrow>
              if len \<le> 1 then raiseE (ChunkHeaderError ''Chunk length is 0 bytes'')
              else
                thenE (file_seek (offset * 4096 + 5))
               (bindE (file_read (len - 1)) (\<lambda>chunk.
                (case compression of
                   None \<Rightarrow> raiseE TypeError
                 | Some compression \<Rightarrow>
                     if compression > 2 then
                       raiseE (ChunkDataError ''Unknown chunk compression/format (%d)'')
                     else liftE (decode_chunk c compression chunk))))))
     else raiseE (RegionHeaderError ''Chunk has unknown status''))"

definition get_nbt :: "'p codec \<Rightarrow> int \<Rightarrow> int \<Rightarrow> (region, 'p option) exn" where
  "get_nbt c x z = get_chunk c x z"

text \<open>
  \<^verbatim>\<open>iter_chunks\<close>, run to its end: the values it yields. A \<^verbatim>\<open>RegionFileFormatError\<close> of
  \<^verbatim>\<open>get_chunk\<close> is passed over; any other exception ends the iteration.
\<close>

definition iter_chunks :: "'p codec \<Rightarrow> (region, 'p option list) exn" where
  "iter_chunks c =
     bindE get_chunk_coords (\<lambda>chunks.
     foldE chunks (\<lambda>(x, z, length') yielded. (\<lambda>r.
       case get_chunk c x z r of
         (Inr nbt, r') \<Rightarrow> (Inr (yielded @ [nbt]), r')
       | (Inl e, r') \<Rightarrow> if is_RegionFileFormatError e then (Inr yielded, r') else (Inl e, r'))) [])"

text \<open>
  The search of \<^verbatim>\<open>write_chunk\<close> for a free place between two chunks that follow each other
  in the sorted list (lines 389 to 404): \<open>Some sector\<close> when the loop ends by \<^verbatim>\<open>break\<close>.
\<close>

fun find_free_space :: "header_entry list \<Rightarrow> int \<Rightarrow> int option" where
  "find_free_space (current_chunk # next_chunk # l) nsectors =
     (let free_space = fst next_chunk - (fst current_chunk + fst (snd current_chunk)) in
      if free_space \<ge> nsectors \<and> \<not> fst current_chunk + fst (snd current_chunk) \<le> 1
      then Some (fst current_chunk + fst (snd current_chunk))
      else find_free_space (next_chunk # l) nsectors)"
| "find_free_space l nsectors = None"

text \<open>Lines 407 to 411, and again 417 to 421: the sector after the end of the file.\<close>

definition append_to_end :: "(region, int \<times> bool) exn" where
  "append_to_end =
     thenE file_seek_end
    (bindE file_tell (\<lambda>t.
     let file_length = t - 1;
         total_sectors = bytes_to_sector file_length 4096;
         sector = total_sectors + 1
     in returnE (sector, True)))"

text \<open>Lines 366 to 421 of \<^verbatim>\<open>write_chunk\<close>: the place of the chunk, \<^verbatim>\<open>(sector, pad_end)\<close>.\<close>

definition find_sector :: "int \<Rightarrow> int \<Rightarrow> int \<Rightarrow> (region, int \<times> bool) exn" where
  "find_sector x z nsectors =
     bindE (header_get x z) (\<lambda>(offset, length', timestamp, status).
     if status = STATUS_CHUNK_NOT_CREATED \<or> status = STATUS_CHUNK_OK then
       if nsectors \<le> length' then returnE (offset, False)
       else (\<lambda>r.
         let l = sort (filter (\<lambda>i. fst i \<noteq> 0) (map snd (header r))) in
         (case l of
            [] \<Rightarrow> raiseE IndexError r
          | l0 # l' \<Rightarrow>
              let l = (if fst l0 \<noteq> 2 then (2, 0, 0, 0) # l else l) in
              (case find_free_space l nsectors of
                 Some sector \<Rightarrow> returnE (sector, False) r
               | None \<Rightarrow> append_to_end r)))
     else append_to_end)"

text \<open>
  \<^verbatim>\<open>write_chunk\<close>; \<open>now\<close> is the value of \<^verbatim>\<open>int(time.time())\<close>. The argument of a
  \<^verbatim>\<open>write\<close> is packed before the call, so a \<^verbatim>\<open>pack\<close> that raises leaves the writes
  before it done.
\<close>

definition write_chunk :: "'p codec \<Rightarrow> int \<Rightarrow> int \<Rightarrow> int \<Rightarrow> 'p \<Rightarrow> (region, unit) exn" where
  "write_chunk c now x z nbt_file =
     (let compressed = zlib_compress c (nbt_write c nbt_file);
          nsectors = bytes_to_sector (int (length compressed) + 5) 4096
      in
      bindE (find_sector x z nsectors) (\<lambda>(sector, pad_end).
      thenE (file_seek (sector * 4096))
     (bindE (liftE (pack_I (int (length compressed) + 1))) (\<lambda>bs.
      thenE (file_write bs)
     (bindE (liftE (pack_B 2)) (\<lambda>bs.
      thenE (file_write bs)
     (thenE (file_write compressed)
     (thenE (if pad_end then
               thenE (file_seek ((sector + nsectors) * 4096 - 1)) (file_write [0])
             else returnE ())
     (thenE (file_seek (4 * (x + z * 32)))
     (bindE (liftE (pack_IB sector nsectors)) (\<lambda>bs.
      thenE (file_write (tl bs))
     (thenE (file_seek (4096 + 4 * (x + z * 32)))
     (bindE (liftE (pack_I now)) (\<lambda>bs.
      thenE (file_write bs)
     (thenE parse_header parse_chunk_headers)))))))))))))))"

text \<open>\<^verbatim>\<open>unlink_chunk\<close>.\<close>

definition unlink_chunk :: "int \<Rightarrow> int \<Rightarrow> (region, unit) exn" where
  "unlink_chunk x z =
     thenE (file_seek (4 * (x + z * 32)))
    (bindE (liftE (pack_IB 0 0)) (\<lambda>bs.
     thenE (file_write (tl bs))
    (thenE (file_seek (4096 + 4 * (x + z * 32)))
    (bindE (liftE (pack_I 0)) (\<lambda>bs.
     thenE (file_write bs)
    (thenE parse_header parse_chunk_headers))))))"

subsection \<open>The tables as functions of the bytes\<close>

text \<open>
  What \<^verbatim>\<open>parse_header\<close> stores for the slot \<open>k\<close> of a file of at least 8192 bytes, and
  what \<^verbatim>\<open>parse_chunk_headers\<close> stores for a header entry: the lemmas below prove that the
  loops compute these, and the theorems read the tables through them.
\<close>

definition slot_key :: "nat \<Rightarrow> int \<times> int" where
  "slot_key k = (int k mod 32, int k div 32)"

definition slot_entry :: "byte list \<Rightarrow> int \<Rightarrow> nat \<Rightarrow> header_entry" where
  "slot_entry cs sz k =
     (let bs = take 4 (drop (4 * k) cs);
          offset = be_int (take 3 bs);
          length' = uint (bs ! 3);
          timestamp = be_int (take 4 (drop (4 * k + 4096) cs))
      in (offset, length', timestamp, header_status offset length' sz))"

definition chunk_entry :: "byte list \<Rightarrow> int \<Rightarrow> header_entry \<Rightarrow> chunk_header_entry" where
  "chunk_entry cs sz e =
     (case e of (offset, region_header_length, timestamp, status) \<Rightarrow>
        let length' = be_int (take 4 (drop (nat (offset * 4096)) cs));
            compression = uint (cs ! (nat (offset * 4096) + 4))
        in
        if status = STATUS_CHUNK_NOT_CREATED then (None, None, STATUS_CHUNK_NOT_CREATED)
        else if status = STATUS_CHUNK_OK then
          (Some length', Some compression,
           (if length' = 0 then STATUS_CHUNK_ZERO_LENGTH
            else if length' + 4 > region_header_length * 4096
            then STATUS_CHUNK_MISMATCHED_LENGTHS
            else STATUS_CHUNK_OK))
        else if status = STATUS_CHUNK_OUT_OF_FILE then
          (if offset * 4096 + 5 < sz then (Some length', Some compression, STATUS_CHUNK_OUT_OF_FILE)
           else (None, None, STATUS_CHUNK_OUT_OF_FILE))
        else (None, None, status))"

subsection \<open>The header classification as the specification words it\<close>

text \<open>
  Section 4.2 of the specification lists the checks on a table entry in a sequence and says
  that the first match wins. \<open>coarse_status_spec\<close> is that list, read by \<open>first_match\<close>;
  it is compared with \<open>header_status\<close>, the chain of the code.
\<close>

fun first_match :: "(bool \<times> 'a) list \<Rightarrow> 'a \<Rightarrow> 'a" where
  "first_match [] otherwise = otherwise"
| "first_match ((check, status) # checks) otherwise =
     (if check then status else first_match checks otherwise)"

definition coarse_status_spec :: "int \<Rightarrow> int \<Rightarrow> int \<Rightarrow> int" where
  "coarse_status_spec offset length' fileSize =
     first_match
       [(offset = 0 \<and> length' = 0, STATUS_CHUNK_NOT_CREATED),
        (length' = 0, STATUS_CHUNK_MISMATCHED_LENGTHS),
        (offset \<noteq> 0 \<and> offset < 2, STATUS_CHUNK_IN_HEADER),
        ((offset + length') * 4096 > fileSize, STATUS_CHUNK_OUT_OF_FILE)]
       STATUS_CHUNK_OK"

subsection \<open>Well-formed containers\<close>


subsection \<open>A codec for the examples\<close>

text \<open>
  The examples need some codec in the place of the parameters. This one takes a byte
  string for a tree and writes it as it is; its compression puts one byte in front (120,
  the first byte of a zlib stream), and its decompression takes the first byte off (120
  for zlib, 31 for gzip) and raises on any other input.
\<close>

definition strip_magic :: "byte \<Rightarrow> byte list \<Rightarrow> string + byte list" where
  "strip_magic magic bs =
     (case bs of
        [] \<Rightarrow> Inl ''incomplete or truncated stream''
      | b # data \<Rightarrow> if b = magic then Inr data else Inl ''incorrect header check'')"

definition example_codec :: "(byte list) codec" where
  "example_codec =
     \<lparr>nbt_write = (\<lambda>p. p), nbt_parse = Inr, zlib_compress = (\<lambda>bs. 120 # bs),
      zlib_decompress = strip_magic 120, gzip_decompress = strip_magic 31\<rparr>"

text \<open>
  A region file for the examples: the four bytes \<open>slot\<close> in the slot of the coordinate
  \<open>(0, 0)\<close>, every other byte of the two tables zero, and after the tables \<open>n\<close> bytes
  that start with the bytes \<open>record\<close> and go on with zeros.
\<close>

definition example_file :: "byte list \<Rightarrow> byte list \<Rightarrow> nat \<Rightarrow> byte list" where
  "example_file slot record n =
     slot @ replicate (8192 - length slot) 0 @ record @ replicate (n - length record) 0"

subsection \<open>The bytes that \<^verbatim>\<open>write_chunk\<close> writes\<close>

text \<open>
  The block of a chunk as lines 426 to 428 write it (the length, the compression byte 2,
  the compressed data), and the bytes of the file after lines 425 to 433 have written the
  block at \<open>sector\<close> and, when \<open>pad_end\<close> is set, one zero byte at the end of the last of the
  \<open>nsectors\<close> sectors. The lemmas prove that \<^verbatim>\<open>write_chunk\<close> leaves these bytes.
\<close>

definition chunk_record :: "byte list \<Rightarrow> byte list" where
  "chunk_record compressed = be_bytes (int (length compressed) + 1) @ [2] @ compressed"

definition data_written :: "byte list \<Rightarrow> int \<Rightarrow> int \<Rightarrow> bool \<Rightarrow> byte list \<Rightarrow> byte list" where
  "data_written cs sector nsectors pad_end compressed =
     (let cs3 = write_at cs (nat (sector * 4096)) (chunk_record compressed)
      in if pad_end then write_at cs3 (nat ((sector + nsectors) * 4096 - 1)) [0] else cs3)"

text \<open>
  The bytes of the file after lines 436 to 442 have written the slot \<open>k\<close> of the two tables:
  the last three bytes of the sector number with the byte of the sector count, and the
  timestamp.
\<close>

definition slot_bytes :: "int \<Rightarrow> int \<Rightarrow> byte list" where
  "slot_bytes sector nsectors = tl (be_bytes sector @ [word_of_int nsectors])"

definition tables_written :: "byte list \<Rightarrow> nat \<Rightarrow> int \<Rightarrow> int \<Rightarrow> int \<Rightarrow> byte list" where
  "tables_written cs k sector nsectors now =
     write_at (write_at cs (4 * k) (slot_bytes sector nsectors)) (4 * k + 4096) (be_bytes now)"

section \<open>Lemmas\<close>

subsection \<open>Bytes and numbers\<close>

lemma uint_byte_of_int [simp]: "uint (word_of_int n :: byte) = n mod 256"
  by (simp add: uint_word_of_int)

lemma be_int_be_bytes:
  assumes "0 \<le> n" "n < 4294967296"
  shows "be_int (be_bytes n) = n"
proof -
  define a where "a = n div 256"
  define b where "b = a div 256"
  define c where "c = b div 256"
  have b: "n div 65536 = b" unfolding b_def a_def by (simp add: zdiv_zmult2_eq)
  have c: "n div 16777216 = c" using b unfolding c_def by (simp add: zdiv_zmult2_eq flip: b)
  have "c < 256" "0 \<le> c" using assms unfolding c [symmetric] by auto
  then have c256: "c mod 256 = c" by simp
  have 1: "c * 256 + b mod 256 = b" unfolding c_def by simp
  have 2: "b * 256 + a mod 256 = a" unfolding b_def by simp
  have 3: "a * 256 + n mod 256 = n" unfolding a_def by simp
  have "be_int (be_bytes n) = ((c mod 256 * 256 + b mod 256) * 256 + a mod 256) * 256 + n mod 256"
    by (simp add: be_int_def be_bytes_def b c a_def)
  also have "\<dots> = n" by (simp only: c256 1 2 3)
  finally show ?thesis .
qed

lemma be_int_nonneg: "0 \<le> be_int bs"
proof -
  have "0 \<le> acc \<Longrightarrow> 0 \<le> foldl (\<lambda>acc b. acc * 256 + uint b) acc bs" for acc
    by (induction bs arbitrary: acc) auto
  then show ?thesis by (simp add: be_int_def)
qed



lemma be_int_0_Cons [simp]: "be_int (0 # bs) = be_int bs"
  by (simp add: be_int_def)

lemma be_int_replicate_0 [simp]: "be_int (replicate n 0) = 0"
  by (induction n) (simp_all add: be_int_def)

subsection \<open>Statements and loops\<close>

lemma bindE_apply: "bindE m f s = (case m s of (Inl e, s') \<Rightarrow> (Inl e, s') | (Inr a, s') \<Rightarrow> f a s')"
  by (simp add: bindE_def)

lemma thenE_apply: "thenE m n s = (case m s of (Inl e, s') \<Rightarrow> (Inl e, s') | (Inr a, s') \<Rightarrow> n s')"
  by (simp add: thenE_def bindE_def)

lemma returnE_apply: "returnE a s = (Inr a, s)"
  by (simp add: returnE_def)

lemma raiseE_apply: "raiseE e s = (Inl e, s)"
  by (simp add: raiseE_def)

lemma liftE_apply: "liftE v s = (v, s)"
  by (simp add: liftE_def)

lemmas exn_simps = bindE_apply thenE_apply returnE_apply raiseE_apply liftE_apply

lemma thenE_assoc: "thenE (thenE m n) k = thenE m (thenE n k)"
  by (rule ext) (simp add: thenE_apply split: prod.splits sum.splits)

lemma thenE_returnE: "thenE (returnE a) m = m"
  by (rule ext) (simp add: thenE_apply returnE_apply)

lemma thenE_returnE_right: "thenE m (returnE ()) = m"
  by (rule ext) (auto simp add: thenE_apply returnE_apply split: prod.splits sum.splits)

lemma forE_append: "forE (as @ bs) body = thenE (forE as body) (forE bs body)"
  by (induction as) (simp_all add: thenE_returnE thenE_assoc)

lemma forE_map: "forE (map h as) body = forE as (\<lambda>a. body (h a))"
  by (induction as) simp_all

lemma forE_nested:
  "forE xs (\<lambda>x. forE ys (f x)) = forE (List.product xs ys) (\<lambda>(x, z). f x z)"
  by (induction xs) (simp_all add: forE_append forE_map)

lemma forE_snd:
  assumes "\<And>a r. a \<in> set as \<Longrightarrow> I r \<Longrightarrow> fst (body a r) = Inr () \<and> I (snd (body a r))"
    and "I r"
  shows "forE as body r = (Inr (), fold (\<lambda>a r. snd (body a r)) as r)
         \<and> I (fold (\<lambda>a r. snd (body a r)) as r)"
  using assms
proof (induction as arbitrary: r)
  case Nil
  then show ?case by (simp add: returnE_apply)
next
  case (Cons a as)
  have 1: "fst (body a r) = Inr ()" "I (snd (body a r))"
    using Cons.prems(1) [of a r] Cons.prems(2) by auto
  have 2: "forE as body (snd (body a r)) = (Inr (), fold (\<lambda>a r. snd (body a r)) as (snd (body a r)))
      \<and> I (fold (\<lambda>a r. snd (body a r)) as (snd (body a r)))"
    by (rule Cons.IH) (use Cons.prems 1 in auto)
  show ?case using 1 2 by (cases "body a r") (simp add: thenE_apply)
qed

lemma fold_proj_inv:
  assumes "\<And>a r. a \<in> set as \<Longrightarrow> I r \<Longrightarrow> I (g a r) \<and> p (g a r) = u a (p r)"
    and "I r"
  shows "p (fold g as r) = fold u as (p r) \<and> I (fold g as r)"
  using assms
proof (induction as arbitrary: r)
  case Nil
  then show ?case by simp
next
  case (Cons a as)
  have 1: "I (g a r)" "p (g a r) = u a (p r)" using Cons.prems(1) [of a r] Cons.prems(2) by auto
  have "p (fold g as (g a r)) = fold u as (p (g a r)) \<and> I (fold g as (g a r))"
    by (rule Cons.IH) (use Cons.prems 1 in auto)
  then show ?case using 1 by simp
qed

lemma fold_id_inv:
  assumes "\<And>a r. a \<in> set as \<Longrightarrow> I r \<Longrightarrow> I (g a r) \<and> p (g a r) = p r"
    and "I r"
  shows "p (fold g as r) = p r"
proof -
  have "fold (\<lambda>a x. x) as y = y" for y :: 'c
    by (induction as) simp_all
  then show ?thesis
    using fold_proj_inv [where u = "\<lambda>a x. x" and p = p and g = g and I = I and as = as and r = r] assms
    by simp
qed

lemma map_of_fold_update_other:
  "q \<notin> key ` set ks \<Longrightarrow>
     map_of (fold (\<lambda>k. AList.update (key k) (val k)) ks al) q = map_of al q"
  by (induction ks arbitrary: al) (simp_all add: update_conv')

lemma map_of_fold_update:
  assumes "inj_on key (set ks)" "k \<in> set ks"
  shows "map_of (fold (\<lambda>k. AList.update (key k) (val k)) ks al) (key k) = Some (val k)"
  using assms
proof (induction ks arbitrary: al)
  case Nil
  then show ?case by simp
next
  case (Cons a ks)
  show ?case
  proof (cases "k \<in> set ks")
    case True
    then show ?thesis using Cons by simp
  next
    case False
    then have ka: "k = a" using Cons.prems by simp
    have "key a \<notin> key ` set ks"
      using Cons.prems(1) False ka by (auto simp: inj_on_def)
    then show ?thesis using ka by (simp add: map_of_fold_update_other update_conv')
  qed
qed

lemma update_fresh: "k \<notin> fst ` set al \<Longrightarrow> AList.update k v al = al @ [(k, v)]"
  by (induction al) auto

lemma fold_update_fresh:
  assumes "inj_on key (set ks)" "distinct ks" "key ` set ks \<inter> fst ` set al = {}"
  shows "fold (\<lambda>k. AList.update (key k) (val k)) ks al = al @ map (\<lambda>k. (key k, val k)) ks"
  using assms
proof (induction ks arbitrary: al)
  case Nil
  then show ?case by simp
next
  case (Cons a ks)
  have 1: "AList.update (key a) (val a) al = al @ [(key a, val a)]"
    using Cons.prems(3) by (intro update_fresh) auto
  have 2: "key ` set ks \<inter> fst ` set (al @ [(key a, val a)]) = {}"
    using Cons.prems by (auto simp: inj_on_def)
  show ?case using Cons.IH [OF _ _ 2] Cons.prems 1 by simp
qed


subsection \<open>The calls on the file, applied to a state\<close>

lemma file_seek_apply:
  "file_seek n r = (if n < 0 then (Inl SeekError, r\<lparr>file' := file' r\<rparr>)
                    else (Inr n, r\<lparr>file' := (file' r)\<lparr>pos := nat n\<rparr>\<rparr>))"
  by (simp add: file_seek_def on_file_def py_seek_def)

lemma file_seek_end_apply:
  "file_seek_end r = (Inr (int (length (contents (file' r)))),
                      r\<lparr>file' := (file' r)\<lparr>pos := length (contents (file' r))\<rparr>\<rparr>)"
  by (simp add: file_seek_end_def on_file_def py_seek_end_def)

lemma file_tell_apply: "file_tell r = (Inr (int (pos (file' r))), r\<lparr>file' := file' r\<rparr>)"
  by (simp add: file_tell_def on_file_def py_tell_def)

lemma file_read_apply:
  "0 \<le> n \<Longrightarrow> file_read n r =
     (Inr (take (nat n) (drop (pos (file' r)) (contents (file' r)))),
      r\<lparr>file' := (file' r)\<lparr>pos := pos (file' r)
          + length (take (nat n) (drop (pos (file' r)) (contents (file' r))))\<rparr>\<rparr>)"
  by (simp add: file_read_def on_file_def py_read_def Let_def)

subsection \<open>\<^verbatim>\<open>parse_header\<close>\<close>

lemma parse_header_index_run:
  assumes "k < 1024" "8192 \<le> length (contents (file' r))"
  shows "parse_header_index (4 * int k) r =
    (Inr (), r\<lparr>file' := (file' r)\<lparr>pos := 4 * k + 4100\<rparr>,
               header := AList.update (slot_key k)
                 (slot_entry (contents (file' r)) (size' r) k) (header r)\<rparr>)"
  using assms
  by (simp add: parse_header_index_def exn_simps file_seek_apply file_read_apply
      unpack_IB_def unpack_I_def header_set_def slot_key_def slot_entry_def Let_def
      nat_mult_distrib nat_add_distrib)

lemma parse_header_loop:
  assumes "8192 \<le> length (contents (file' r))" "set ks \<subseteq> {..<1024}"
  shows "\<exists>r'. forE (map (\<lambda>k. 4 * int k) ks) parse_header_index r = (Inr (), r')
          \<and> contents (file' r') = contents (file' r) \<and> size' r' = size' r
          \<and> chunk_headers r' = chunk_headers r
          \<and> header r' = fold (\<lambda>k. AList.update (slot_key k)
                (slot_entry (contents (file' r)) (size' r) k)) ks (header r)"
proof -
  define cs where "cs = contents (file' r)"
  define I where "I = (\<lambda>r0::region. contents (file' r0) = cs \<and> size' r0 = size' r
     \<and> chunk_headers r0 = chunk_headers r)"
  define g where "g = (\<lambda>k r0. snd (parse_header_index (4 * int k) r0))"
  have step: "fst (parse_header_index (4 * int k) r0) = Inr () \<and> I (g k r0)
      \<and> header (g k r0) = AList.update (slot_key k) (slot_entry cs (size' r) k) (header r0)"
    if "k \<in> set ks" "I r0" for k r0
  proof -
    have "k < 1024" using that assms(2) by auto
    moreover have "8192 \<le> length (contents (file' r0))" using that assms(1) by (simp add: I_def cs_def)
    ultimately show ?thesis
      using parse_header_index_run [of k r0] that(2) by (simp add: I_def g_def)
  qed
  have I0: "I r" by (simp add: I_def cs_def)
  have 1: "forE ks (\<lambda>k. parse_header_index (4 * int k)) r = (Inr (), fold g ks r) \<and> I (fold g ks r)"
    unfolding g_def by (rule forE_snd [where I = I]) (use step I0 in \<open>auto simp: g_def\<close>)
  have 2: "header (fold g ks r) = fold (\<lambda>k. AList.update (slot_key k) (slot_entry cs (size' r) k)) ks (header r)
      \<and> I (fold g ks r)"
    by (rule fold_proj_inv [where I = I]) (use step I0 in auto)
  show ?thesis using 1 2 by (auto simp: forE_map I_def cs_def)
qed

lemma forE_header_set:
  "forE ks (\<lambda>(x, z). header_set x z v) r =
     (Inr (), r\<lparr>header := fold (\<lambda>xz. AList.update xz v) ks (header r)\<rparr>)"
  by (induction ks arbitrary: r) (auto simp: returnE_apply thenE_apply header_set_def)

lemma init_header_run:
  "init_header r = (Inr (), r\<lparr>header := fold (\<lambda>xz. AList.update xz (0, 0, 0, STATUS_CHUNK_NOT_CREATED))
      (List.product range32 range32) (header r)\<rparr>)"
  by (simp add: init_header_def forE_nested forE_header_set)

lemma parse_header_ok:
  assumes "8192 \<le> length (contents (file' r))"
  shows "\<exists>r'. parse_header r = (Inr (), r')
          \<and> contents (file' r') = contents (file' r)
          \<and> size' r' = int (length (contents (file' r)))
          \<and> chunk_headers r' = chunk_headers r
          \<and> header r' = fold (\<lambda>k. AList.update (slot_key k)
                (slot_entry (contents (file' r)) (int (length (contents (file' r)))) k))
                [0..<1024] (header r)"
proof -
  define r1 where "r1 = r\<lparr>file' := (file' r)\<lparr>pos := length (contents (file' r))\<rparr>,
     size' := int (length (contents (file' r)))\<rparr>"
  have "contents (file' r) \<noteq> []" using assms by auto
  then have "parse_header r = forE (map (\<lambda>k. 4 * int k) [0..<1024]) parse_header_index r1"
    using assms
    by (simp add: parse_header_def get_size_def exn_simps file_seek_end_apply range_0_4096_4_def r1_def)
  moreover have "8192 \<le> length (contents (file' r1))" using assms by (simp add: r1_def)
  moreover have "set [0..<1024] \<subseteq> {..<1024::nat}" by (simp add: subset_iff)
  ultimately show ?thesis
    using parse_header_loop [of r1 "[0..<1024]"] by (simp add: r1_def)
qed

lemma parse_header_empty:
  assumes "length (contents (file' r)) = 0"
  shows "parse_header r = (Inr (), r\<lparr>file' := (file' r)\<lparr>pos := 0\<rparr>, size' := 0,
           header := fold (\<lambda>xz. AList.update xz (0, 0, 0, STATUS_CHUNK_NOT_CREATED))
             (List.product range32 range32) (header r)\<rparr>)"
  using assms
  by (simp add: parse_header_def get_size_def exn_simps file_seek_end_apply init_header_run)

lemma parse_header_small:
  assumes "0 < length (contents (file' r))" "length (contents (file' r)) < 8192"
  shows "parse_header r =
     (Inl (NoRegionHeader ''The region file is too small in size to have a header.''),
      r\<lparr>file' := (file' r)\<lparr>pos := length (contents (file' r))\<rparr>,
        size' := int (length (contents (file' r))),
        header := fold (\<lambda>xz. AList.update xz (0, 0, 0, STATUS_CHUNK_NOT_CREATED))
             (List.product range32 range32) (header r)\<rparr>)"
  using assms
  by (simp add: parse_header_def get_size_def exn_simps file_seek_end_apply init_header_run)

lemma in_range32 [simp]: "x \<in> set range32 \<longleftrightarrow> 0 \<le> x \<and> x < 32"
proof
  assume "x \<in> set range32"
  then show "0 \<le> x \<and> x < 32" by (auto simp: range32_def)
next
  assume "0 \<le> x \<and> x < 32"
  then have "x = int (nat x)" "nat x < 32" by auto
  then show "x \<in> set range32" unfolding range32_def by (metis atLeast0LessThan image_eqI lessThan_iff set_map set_upt)
qed

lemma map_of_fold_const:
  assumes "q \<in> set ks"
  shows "map_of (fold (\<lambda>xz. AList.update xz v) ks al) q = Some v"
  using map_of_fold_update [where key = "\<lambda>k. k" and val = "\<lambda>k. v" and ks = ks and k = q and al = al] assms
  by simp

lemma slot_key_inj: "inj slot_key"
proof (rule injI)
  fix a b assume "slot_key a = slot_key b"
  then have "int a mod 32 = int b mod 32" "int a div 32 = int b div 32"
    by (simp_all add: slot_key_def)
  then have "int a = int b" by (metis div_mult_mod_eq)
  then show "a = b" by simp
qed

lemma slot_key_nat:
  assumes "0 \<le> x" "x < 32" "0 \<le> z" "z < 32"
  shows "slot_key (nat (x + z * 32)) = (x, z)" "nat (x + z * 32) < 1024"
  using assms by (auto simp: slot_key_def)

lemma header_lookup_fold:
  assumes "0 \<le> x" "x < 32" "0 \<le> z" "z < 32"
  shows "map_of (fold (\<lambda>k. AList.update (slot_key k) (val k)) [0..<1024] al) (x, z)
     = Some (val (nat (x + z * 32)))"
proof -
  have "map_of (fold (\<lambda>k. AList.update (slot_key k) (val k)) [0..<1024] al) (slot_key (nat (x + z * 32)))
     = Some (val (nat (x + z * 32)))"
    by (rule map_of_fold_update) (use slot_key_nat [OF assms] slot_key_inj in \<open>auto intro: inj_on_subset\<close>)
  then show ?thesis using slot_key_nat [OF assms] by simp
qed

subsection \<open>\<^verbatim>\<open>parse_chunk_headers\<close>\<close>

lemma read_chunk_header_run:
  assumes "0 \<le> offset" "nat (offset * 4096) + 5 \<le> length (contents (file' r))"
  shows "read_chunk_header offset r =
     (Inr (be_int (take 4 (drop (nat (offset * 4096)) (contents (file' r)))),
           uint (contents (file' r) ! (nat (offset * 4096) + 4))),
      r\<lparr>file' := (file' r)\<lparr>pos := nat (offset * 4096) + 5\<rparr>\<rparr>)"
proof -
  have "hd (take (Suc 0) (drop (nat (offset * 4096) + 4) (contents (file' r))))
      = contents (file' r) ! (nat (offset * 4096) + 4)"
    using assms(2) by (simp add: hd_drop_conv_nth)
  then show ?thesis
    using assms
    by (simp add: read_chunk_header_def exn_simps file_seek_apply file_read_apply
        unpack_I_def unpack_B_def)
qed

lemma parse_chunk_headers_xz_run:
  assumes "map_of (header r) (x, z) = Some (offset, len, ts, status)"
    and "status = STATUS_CHUNK_OK \<or> status = STATUS_CHUNK_OUT_OF_FILE \<and> offset * 4096 + 5 < size' r
       \<Longrightarrow> 0 \<le> offset \<and> nat (offset * 4096) + 5 \<le> length (contents (file' r))"
  shows "fst (parse_chunk_headers_xz x z r) = Inr ()"
    and "contents (file' (snd (parse_chunk_headers_xz x z r))) = contents (file' r)"
    and "size' (snd (parse_chunk_headers_xz x z r)) = size' r"
    and "header (snd (parse_chunk_headers_xz x z r)) = header r"
    and "chunk_headers (snd (parse_chunk_headers_xz x z r)) =
      AList.update (x, z) (chunk_entry (contents (file' r)) (size' r) (offset, len, ts, status))
        (chunk_headers r)"
  using assms
  by (auto simp add: parse_chunk_headers_xz_def exn_simps header_get_def chunk_headers_set_def
      read_chunk_header_run chunk_entry_def status_defs Let_def)

lemma parse_chunk_headers_run:
  assumes hdr: "\<And>x z. 0 \<le> x \<Longrightarrow> x < 32 \<Longrightarrow> 0 \<le> z \<Longrightarrow> z < 32 \<Longrightarrow>
        \<exists>offset len ts status. map_of (header r) (x, z) = Some (offset, len, ts, status)
          \<and> (status = STATUS_CHUNK_OK \<or> status = STATUS_CHUNK_OUT_OF_FILE \<and> offset * 4096 + 5 < size' r
             \<longrightarrow> 0 \<le> offset \<and> nat (offset * 4096) + 5 \<le> length (contents (file' r)))"
  shows "\<exists>r'. parse_chunk_headers r = (Inr (), r')
          \<and> contents (file' r') = contents (file' r) \<and> size' r' = size' r
          \<and> header r' = header r
          \<and> chunk_headers r' = fold (\<lambda>xz. AList.update xz
                (chunk_entry (contents (file' r)) (size' r) (the (map_of (header r) xz))))
                (List.product range32 range32) (chunk_headers r)"
proof -
  define I where "I = (\<lambda>r0::region. contents (file' r0) = contents (file' r) \<and> size' r0 = size' r
     \<and> header r0 = header r)"
  define body where "body = (\<lambda>(x, z). parse_chunk_headers_xz x z)"
  define g where "g = (\<lambda>xz r0. snd (body xz r0))"
  define ks where "ks = List.product range32 range32"
  have step: "fst (body xz r0) = Inr () \<and> I (g xz r0)
      \<and> chunk_headers (g xz r0) = AList.update xz
           (chunk_entry (contents (file' r)) (size' r) (the (map_of (header r) xz))) (chunk_headers r0)"
    if "xz \<in> set ks" "I r0" for xz r0
  proof -
    obtain x z where xz: "xz = (x, z)" by (cases xz)
    have rng: "0 \<le> x" "x < 32" "0 \<le> z" "z < 32" using that(1) by (auto simp: ks_def xz)
    obtain offset len ts status where e: "map_of (header r) (x, z) = Some (offset, len, ts, status)"
      and safe: "status = STATUS_CHUNK_OK \<or> status = STATUS_CHUNK_OUT_OF_FILE \<and> offset * 4096 + 5 < size' r
             \<longrightarrow> 0 \<le> offset \<and> nat (offset * 4096) + 5 \<le> length (contents (file' r))"
      using hdr [OF rng] by blast
    have e0: "map_of (header r0) (x, z) = Some (offset, len, ts, status)"
      using e that(2) by (simp add: I_def)
    have safe0: "status = STATUS_CHUNK_OK \<or> status = STATUS_CHUNK_OUT_OF_FILE \<and> offset * 4096 + 5 < size' r0
             \<Longrightarrow> 0 \<le> offset \<and> nat (offset * 4096) + 5 \<le> length (contents (file' r0))"
      using safe that(2) unfolding I_def by metis
    note run = parse_chunk_headers_xz_run [OF e0 safe0]
    show ?thesis
      using run that(2) e by (simp add: body_def g_def xz I_def)
  qed
  have I0: "I r" by (simp add: I_def)
  have 1: "forE ks body r = (Inr (), fold g ks r) \<and> I (fold g ks r)"
    unfolding g_def by (rule forE_snd [where I = I]) (use step I0 in \<open>auto simp: g_def\<close>)
  have 2: "chunk_headers (fold g ks r) = fold (\<lambda>xz. AList.update xz
                (chunk_entry (contents (file' r)) (size' r) (the (map_of (header r) xz))))
                ks (chunk_headers r) \<and> I (fold g ks r)"
    by (rule fold_proj_inv [where I = I]) (use step I0 in auto)
  have "parse_chunk_headers r = forE ks body r"
    by (simp add: parse_chunk_headers_def forE_nested ks_def body_def)
  then show ?thesis using 1 2 by (auto simp: I_def ks_def)
qed

lemma slot_entry_safe:
  assumes "slot_entry cs (int (length cs)) k = (offset, len, ts, status)"
    and "status = STATUS_CHUNK_OK \<or> status = STATUS_CHUNK_OUT_OF_FILE \<and> offset * 4096 + 5 < int (length cs)"
  shows "0 \<le> offset \<and> nat (offset * 4096) + 5 \<le> length cs"
proof -
  have off: "offset = be_int (take 3 (take 4 (drop (4 * k) cs)))"
    and len: "len = uint (take 4 (drop (4 * k) cs) ! 3)"
    and st: "status = header_status offset len (int (length cs))"
    using assms(1) by (auto simp: slot_entry_def Let_def)
  have 0: "0 \<le> offset" unfolding off by (rule be_int_nonneg)
  have l0: "0 \<le> len" unfolding len by simp
  from assms(2) show ?thesis
  proof
    assume "status = STATUS_CHUNK_OK"
    then have "len \<noteq> 0" "(offset + len) * 4096 \<le> int (length cs)"
      using st by (auto simp: header_status_def status_defs split: if_splits)
    then have "offset * 4096 + 4096 \<le> int (length cs)" using l0 by (simp add: algebra_simps)
    then show ?thesis using 0 by auto
  next
    assume "status = STATUS_CHUNK_OUT_OF_FILE \<and> offset * 4096 + 5 < int (length cs)"
    then show ?thesis using 0 by auto
  qed
qed

lemma product_range32 [simp]:
  "(x, z) \<in> set (List.product range32 range32) \<longleftrightarrow> 0 \<le> x \<and> x < 32 \<and> 0 \<le> z \<and> z < 32"
  by auto

text \<open>Both tables after \<^verbatim>\<open>parse_header\<close> and \<^verbatim>\<open>parse_chunk_headers\<close>, on a file with a header.\<close>

lemma reparse_ok:
  assumes "8192 \<le> length (contents (file' r))"
  shows "\<exists>r'. thenE parse_header parse_chunk_headers r = (Inr (), r')
          \<and> contents (file' r') = contents (file' r)
          \<and> size' r' = int (length (contents (file' r)))
          \<and> header r' = fold (\<lambda>k. AList.update (slot_key k)
                (slot_entry (contents (file' r)) (int (length (contents (file' r)))) k))
                [0..<1024] (header r)
          \<and> (\<forall>x z. 0 \<le> x \<and> x < 32 \<and> 0 \<le> z \<and> z < 32 \<longrightarrow>
               map_of (header r') (x, z) = Some (slot_entry (contents (file' r))
                   (int (length (contents (file' r)))) (nat (x + z * 32)))
             \<and> map_of (chunk_headers r') (x, z) = Some (chunk_entry (contents (file' r))
                   (int (length (contents (file' r))))
                   (slot_entry (contents (file' r)) (int (length (contents (file' r))))
                      (nat (x + z * 32)))))"
proof -
  define cs where "cs = contents (file' r)"
  define sz where "sz = int (length cs)"
  obtain r1 where r1: "parse_header r = (Inr (), r1)" "contents (file' r1) = cs" "size' r1 = sz"
    "header r1 = fold (\<lambda>k. AList.update (slot_key k) (slot_entry cs sz k)) [0..<1024] (header r)"
    using parse_header_ok [OF assms] by (auto simp: cs_def sz_def)
  have look: "map_of (header r1) (x, z) = Some (slot_entry cs sz (nat (x + z * 32)))"
    if "0 \<le> x" "x < 32" "0 \<le> z" "z < 32" for x z
    unfolding r1(4) using that by (rule header_lookup_fold)
  have "\<exists>r'. parse_chunk_headers r1 = (Inr (), r')
          \<and> contents (file' r') = contents (file' r1) \<and> size' r' = size' r1
          \<and> header r' = header r1
          \<and> chunk_headers r' = fold (\<lambda>xz. AList.update xz
                (chunk_entry (contents (file' r1)) (size' r1) (the (map_of (header r1) xz))))
                (List.product range32 range32) (chunk_headers r1)"
  proof (rule parse_chunk_headers_run)
    fix x z :: int assume rng: "0 \<le> x" "x < 32" "0 \<le> z" "z < 32"
    obtain offset len ts status where e: "slot_entry cs sz (nat (x + z * 32)) = (offset, len, ts, status)"
      by (metis prod_cases4)
    have "status = STATUS_CHUNK_OK \<or> status = STATUS_CHUNK_OUT_OF_FILE \<and> offset * 4096 + 5 < size' r1
             \<longrightarrow> 0 \<le> offset \<and> nat (offset * 4096) + 5 \<le> length (contents (file' r1))"
      using slot_entry_safe [of cs "nat (x + z * 32)" offset len ts status] e r1 by (auto simp: sz_def)
    then show "\<exists>offset len ts status. map_of (header r1) (x, z) = Some (offset, len, ts, status)
          \<and> (status = STATUS_CHUNK_OK \<or> status = STATUS_CHUNK_OUT_OF_FILE \<and> offset * 4096 + 5 < size' r1
             \<longrightarrow> 0 \<le> offset \<and> nat (offset * 4096) + 5 \<le> length (contents (file' r1)))"
      using look [OF rng] e by auto
  qed
  then obtain r' where r': "parse_chunk_headers r1 = (Inr (), r')"
    "contents (file' r') = cs" "size' r' = sz" "header r' = header r1"
    "chunk_headers r' = fold (\<lambda>xz. AList.update xz (chunk_entry cs sz (the (map_of (header r1) xz))))
                (List.product range32 range32) (chunk_headers r1)"
    using r1 by auto
  have ch: "map_of (chunk_headers r') (x, z) = Some (chunk_entry cs sz (slot_entry cs sz (nat (x + z * 32))))"
    if "0 \<le> x" "x < 32" "0 \<le> z" "z < 32" for x z
  proof -
    have "map_of (chunk_headers r') (x, z) = Some (chunk_entry cs sz (the (map_of (header r1) (x, z))))"
      unfolding r'(5)
      using map_of_fold_update [where key = "\<lambda>k. k" and k = "(x, z)"
          and val = "\<lambda>xz. chunk_entry cs sz (the (map_of (header r1) xz))"
          and ks = "List.product range32 range32" and al = "chunk_headers r1"] that
      by simp
    then show ?thesis using look [OF that] by simp
  qed
  have "thenE parse_header parse_chunk_headers r = (Inr (), r')"
    using r1(1) r'(1) by (simp add: thenE_apply)
  then show ?thesis
    using r'(2,3,4) r1(4) look ch unfolding cs_def [symmetric] sz_def [symmetric] by auto
qed

subsection \<open>The constructor\<close>

lemma distinct_product_range32: "distinct (List.product range32 range32)"
  by (simp add: distinct_product range32_def distinct_map inj_on_def)

lemma RegionFile_init_ok:
  assumes "8192 \<le> length cs"
  shows "\<exists>r. RegionFile_init \<lparr>contents = cs, pos = p\<rparr> = Inr r
          \<and> contents (file' r) = cs
          \<and> size' r = int (length cs)
          \<and> header r = map (\<lambda>k. (slot_key k, slot_entry cs (int (length cs)) k)) [0..<1024]
          \<and> (\<forall>x z. 0 \<le> x \<and> x < 32 \<and> 0 \<le> z \<and> z < 32 \<longrightarrow>
               map_of (header r) (x, z) = Some (slot_entry cs (int (length cs)) (nat (x + z * 32)))
             \<and> map_of (chunk_headers r) (x, z) = Some (chunk_entry cs (int (length cs))
                   (slot_entry cs (int (length cs)) (nat (x + z * 32)))))"
proof -
  define r0 where "r0 = \<lparr>file' = \<lparr>contents = cs, pos = p\<rparr>, size' = 0, header = [], chunk_headers = []\<rparr>"
  have len: "8192 \<le> length (contents (file' r0))" using assms by (simp add: r0_def)
  have "fold (\<lambda>k. AList.update (slot_key k) (slot_entry cs (int (length cs)) k)) [0..<1024] []
      = [] @ map (\<lambda>k. (slot_key k, slot_entry cs (int (length cs)) k)) [0..<1024]"
    by (rule fold_update_fresh) (use slot_key_inj in \<open>auto intro: inj_on_subset\<close>)
  then show ?thesis
    using reparse_ok [OF len]
    by (auto simp: RegionFile_init_def r0_def)
qed

lemma RegionFile_init_small:
  assumes "0 < length cs" "length cs < 8192"
  shows "RegionFile_init \<lparr>contents = cs, pos = p\<rparr>
     = Inl (NoRegionHeader ''The region file is too small in size to have a header.'')"
  using assms by (simp add: RegionFile_init_def thenE_apply parse_header_small)

lemma RegionFile_init_empty:
  "\<exists>r. RegionFile_init \<lparr>contents = [], pos = p\<rparr> = Inr r
      \<and> contents (file' r) = [] \<and> size' r = 0
      \<and> header r = map (\<lambda>xz. (xz, (0, 0, 0, STATUS_CHUNK_NOT_CREATED))) (List.product range32 range32)
      \<and> (\<forall>x z. 0 \<le> x \<and> x < 32 \<and> 0 \<le> z \<and> z < 32 \<longrightarrow>
            map_of (header r) (x, z) = Some (0, 0, 0, STATUS_CHUNK_NOT_CREATED)
          \<and> map_of (chunk_headers r) (x, z) = Some (None, None, STATUS_CHUNK_NOT_CREATED))"
proof -
  define v :: header_entry where "v = (0, 0, 0, STATUS_CHUNK_NOT_CREATED)"
  define ks where "ks = List.product range32 range32"
  define r0 where "r0 = \<lparr>file' = \<lparr>contents = [], pos = p\<rparr>, size' = 0, header = [], chunk_headers = []\<rparr>"
  define r1 where "r1 = r0\<lparr>file' := (file' r0)\<lparr>pos := 0\<rparr>, size' := 0,
           header := fold (\<lambda>xz. AList.update xz v) ks (header r0)\<rparr>"
  have p1: "parse_header r0 = (Inr (), r1)"
    unfolding r1_def v_def ks_def by (rule parse_header_empty) (simp add: r0_def)
  have h1: "header r1 = map (\<lambda>xz. (xz, v)) ks"
    using fold_update_fresh [where key = "\<lambda>k. k" and val = "\<lambda>k. v" and ks = ks and al = "[]"]
      distinct_product_range32
    by (simp add: r1_def r0_def ks_def)
  have look: "map_of (header r1) (x, z) = Some v" if "0 \<le> x" "x < 32" "0 \<le> z" "z < 32" for x z
    using that by (simp add: r1_def map_of_fold_const ks_def)
  have "\<exists>r'. parse_chunk_headers r1 = (Inr (), r')
          \<and> contents (file' r') = contents (file' r1) \<and> size' r' = size' r1
          \<and> header r' = header r1
          \<and> chunk_headers r' = fold (\<lambda>xz. AList.update xz
                (chunk_entry (contents (file' r1)) (size' r1) (the (map_of (header r1) xz))))
                (List.product range32 range32) (chunk_headers r1)"
    by (rule parse_chunk_headers_run) (use look in \<open>auto simp: v_def status_defs\<close>)
  then obtain r' where r': "parse_chunk_headers r1 = (Inr (), r')"
    "contents (file' r') = []" "size' r' = 0" "header r' = header r1"
    "chunk_headers r' = fold (\<lambda>xz. AList.update xz
                (chunk_entry (contents (file' r1)) (size' r1) (the (map_of (header r1) xz))))
                ks (chunk_headers r1)"
    by (auto simp: r1_def r0_def ks_def)
  have ch: "map_of (chunk_headers r') (x, z) = Some (None, None, STATUS_CHUNK_NOT_CREATED)"
    if "0 \<le> x" "x < 32" "0 \<le> z" "z < 32" for x z
  proof -
    have "map_of (chunk_headers r') (x, z)
        = Some (chunk_entry (contents (file' r1)) (size' r1) (the (map_of (header r1) (x, z))))"
      unfolding r'(5)
      using map_of_fold_update [where key = "\<lambda>k. k" and k = "(x, z)"
          and val = "\<lambda>xz. chunk_entry (contents (file' r1)) (size' r1) (the (map_of (header r1) xz))"
          and ks = ks and al = "chunk_headers r1"] that
      by (simp add: ks_def)
    then show ?thesis using look [OF that] by (simp add: chunk_entry_def v_def)
  qed
  have "RegionFile_init \<lparr>contents = [], pos = p\<rparr> = Inr r'"
    using p1 r'(1) by (simp add: RegionFile_init_def thenE_apply r0_def)
  then show ?thesis using r'(2,3,4) h1 look ch by (auto simp: v_def ks_def)
qed

text \<open>An opened region file has no bytes or a whole header.\<close>

lemma RegionFile_init_cases:
  assumes "RegionFile_init fileobj = Inr r"
  shows "contents fileobj = [] \<or> 8192 \<le> length (contents fileobj)"
proof (rule ccontr)
  assume "\<not> ?thesis"
  then have "0 < length (contents fileobj)" "length (contents fileobj) < 8192" by auto
  from RegionFile_init_small [OF this, of "pos fileobj"] assms show False
    by (cases fileobj) simp
qed

subsection \<open>Reading leaves the bytes of the file as they are\<close>

lemma bindE_contents:
  assumes "\<And>r. contents (file' (snd (m r))) = contents (file' r)"
    and "\<And>a r. contents (file' (snd (f a r))) = contents (file' r)"
  shows "contents (file' (snd (bindE m f r))) = contents (file' r)"
proof (cases "m r")
  case (Pair v r1)
  have "contents (file' r1) = contents (file' r)" using assms(1) [of r] Pair by simp
  then show ?thesis using assms(2) Pair by (cases v) (simp_all add: bindE_apply)
qed

lemma thenE_contents:
  assumes "\<And>r. contents (file' (snd (m r))) = contents (file' r)"
    and "\<And>r. contents (file' (snd (n r))) = contents (file' r)"
  shows "contents (file' (snd (thenE m n r))) = contents (file' r)"
  unfolding thenE_def using assms by (rule bindE_contents)

lemma foldE_contents:
  assumes "\<And>a acc r. contents (file' (snd (body a acc r))) = contents (file' r)"
  shows "contents (file' (snd (foldE as body acc r))) = contents (file' r)"
proof (induction as arbitrary: acc r)
  case Nil
  then show ?case by (simp add: returnE_apply)
next
  case (Cons a as)
  show ?case unfolding foldE.simps by (rule bindE_contents) (use assms Cons.IH in auto)
qed

lemma header_get_contents: "contents (file' (snd (header_get x z r))) = contents (file' r)"
  by (simp add: header_get_def split: option.splits)

lemma chunk_headers_get_contents:
  "contents (file' (snd (chunk_headers_get x z r))) = contents (file' r)"
  by (simp add: chunk_headers_get_def split: option.splits)

lemma file_seek_contents: "contents (file' (snd (file_seek n r))) = contents (file' r)"
  by (simp add: file_seek_def on_file_def py_seek_def)

lemma file_read_contents: "contents (file' (snd (file_read n r))) = contents (file' r)"
  by (simp add: file_read_def on_file_def py_read_def Let_def)

lemma get_chunk_coords_contents:
  "contents (file' (snd (get_chunk_coords r))) = contents (file' r)"
  unfolding get_chunk_coords_def
  by (intro foldE_contents bindE_contents header_get_contents chunk_headers_get_contents)
    (simp add: returnE_apply)

lemma get_chunk_contents: "contents (file' (snd (get_chunk c x z r))) = contents (file' r)"
  by (auto simp: get_chunk_def exn_simps header_get_def chunk_headers_get_def
      file_seek_apply file_read_def on_file_def py_read_def Let_def
      split: option.splits prod.splits sum.splits if_splits)

lemma iter_chunks_contents: "contents (file' (snd (iter_chunks c r))) = contents (file' r)"
  unfolding iter_chunks_def
proof (intro bindE_contents get_chunk_coords_contents foldE_contents, goal_cases)
  case (1 chunks r a acc r')
  obtain x z l where a: "a = (x, z, l)" by (metis prod_cases3)
  obtain v r2 where g: "get_chunk c x z r' = (v, r2)" by (cases "get_chunk c x z r'")
  have "contents (file' r2) = contents (file' r')"
    using get_chunk_contents [of c x z r'] g by simp
  then show ?case by (cases v) (simp_all add: a g)
qed

subsection \<open>\<^verbatim>\<open>get_chunk\<close>\<close>

lemma get_chunk_not_created:
  assumes "map_of (header r) (x, z) = Some (offset, len, ts, STATUS_CHUNK_NOT_CREATED)"
  shows "get_chunk c x z r = (Inl (InconceivedChunk ''Chunk is not created''), r)"
  using assms by (simp add: get_chunk_def exn_simps header_get_def)

lemma get_chunk_ok:
  assumes "map_of (header r) (x, z) = Some (offset, seclen, ts, STATUS_CHUNK_OK)"
    and "map_of (chunk_headers r) (x, z) = Some (Some len, Some compression, cst)"
    and "cst \<noteq> STATUS_CHUNK_ZERO_LENGTH" "1 < len" "0 \<le> offset"
  shows "fst (get_chunk c x z r) =
     (if compression > 2 then Inl (ChunkDataError ''Unknown chunk compression/format (%d)'')
      else decode_chunk c compression
             (take (nat (len - 1)) (drop (nat (offset * 4096 + 5)) (contents (file' r)))))"
  using assms
  by (simp add: get_chunk_def exn_simps header_get_def chunk_headers_get_def status_defs
      file_seek_apply file_read_apply)

subsection \<open>Writing to the file\<close>

lemma file_write_apply:
  "bs \<noteq> [] \<Longrightarrow> file_write bs r =
     (Inr (), r\<lparr>file' := (file' r)\<lparr>contents := write_at (contents (file' r)) (pos (file' r)) bs,
                                   pos := pos (file' r) + length bs\<rparr>\<rparr>)"
  by (simp add: file_write_def on_file_def py_write_def)

lemma min_plus_diff [simp]: "min a p + (p - a) = (p::nat)"
  by arith

lemma length_write_at: "length (write_at cs p bs) = max (length cs) (p + length bs)"
  by (auto simp: write_at_def Let_def)

lemma nth_write_at:
  assumes "i < max (length cs) (p + length bs)"
  shows "write_at cs p bs ! i =
     (if p \<le> i \<and> i < p + length bs then bs ! (i - p)
      else if i < length cs then cs ! i else 0)"
  using assms by (auto simp: write_at_def Let_def nth_append not_less)

lemma take_drop_write_at_same:
  "take (length bs) (drop p (write_at cs p bs)) = bs"
  by (simp add: write_at_def Let_def)

lemma take_drop_write_at_same':
  "length bs = n \<Longrightarrow> take n (drop p (write_at cs p bs)) = bs"
  using take_drop_write_at_same by blast

lemma drop_write_at_after:
  assumes "p + length bs \<le> q"
  shows "drop q (write_at cs p bs) = drop q cs"
  using assms by (auto simp: write_at_def Let_def)

lemma take_write_at_before:
  assumes "n \<le> p" "n \<le> length cs"
  shows "take n (write_at cs p bs) = take n cs"
  using assms by (auto simp: write_at_def Let_def)

lemma take_drop_write_at_before:
  assumes "q + n \<le> p" "q + n \<le> length cs"
  shows "take n (drop q (write_at cs p bs)) = take n (drop q cs)"
proof -
  have "take n (drop q (write_at cs p bs)) = drop q (take (q + n) (write_at cs p bs))"
    by (simp add: drop_take add.commute)
  also have "\<dots> = drop q (take (q + n) cs)"
    using assms by (simp add: take_write_at_before)
  also have "\<dots> = take n (drop q cs)" by (simp add: drop_take add.commute)
  finally show ?thesis .
qed

lemma take_drop_write_at_other:
  assumes "q + n \<le> p \<and> q + n \<le> length cs \<or> p + length bs \<le> q"
  shows "take n (drop q (write_at cs p bs)) = take n (drop q cs)"
  using assms take_drop_write_at_before drop_write_at_after by metis

lemma RegionFile_init_tables:
  assumes "RegionFile_init fileobj = Inr r" "8192 \<le> length (contents fileobj)"
  shows "contents (file' r) = contents fileobj"
    and "size' r = int (length (contents fileobj))"
    and "header r = map (\<lambda>k. (slot_key k,
           slot_entry (contents fileobj) (int (length (contents fileobj))) k)) [0..<1024]"
    and "\<And>x z. 0 \<le> x \<Longrightarrow> x < 32 \<Longrightarrow> 0 \<le> z \<Longrightarrow> z < 32 \<Longrightarrow>
           map_of (header r) (x, z) = Some (slot_entry (contents fileobj)
             (int (length (contents fileobj))) (nat (x + z * 32)))"
    and "\<And>x z. 0 \<le> x \<Longrightarrow> x < 32 \<Longrightarrow> 0 \<le> z \<Longrightarrow> z < 32 \<Longrightarrow>
           map_of (chunk_headers r) (x, z) = Some (chunk_entry (contents fileobj)
             (int (length (contents fileobj)))
             (slot_entry (contents fileobj) (int (length (contents fileobj))) (nat (x + z * 32))))"
proof -
  from RegionFile_init_ok [OF assms(2), of "pos fileobj"] obtain r0 where r0:
    "RegionFile_init \<lparr>contents = contents fileobj, pos = pos fileobj\<rparr> = Inr r0"
    "contents (file' r0) = contents fileobj"
    "size' r0 = int (length (contents fileobj))"
    "header r0 = map (\<lambda>k. (slot_key k,
           slot_entry (contents fileobj) (int (length (contents fileobj))) k)) [0..<1024]"
    "\<forall>x z. 0 \<le> x \<and> x < 32 \<and> 0 \<le> z \<and> z < 32 \<longrightarrow>
               map_of (header r0) (x, z) = Some (slot_entry (contents fileobj)
                  (int (length (contents fileobj))) (nat (x + z * 32)))
             \<and> map_of (chunk_headers r0) (x, z) = Some (chunk_entry (contents fileobj)
                  (int (length (contents fileobj)))
                   (slot_entry (contents fileobj) (int (length (contents fileobj)))
                     (nat (x + z * 32))))"
    by blast
  have eq: "r = r0" using assms(1) r0(1) by (cases fileobj) simp
  show "contents (file' r) = contents fileobj" "size' r = int (length (contents fileobj))"
    "header r = map (\<lambda>k. (slot_key k,
           slot_entry (contents fileobj) (int (length (contents fileobj))) k)) [0..<1024]"
    using r0 eq by simp_all
  show "\<And>x z. 0 \<le> x \<Longrightarrow> x < 32 \<Longrightarrow> 0 \<le> z \<Longrightarrow> z < 32 \<Longrightarrow>
           map_of (header r) (x, z) = Some (slot_entry (contents fileobj)
             (int (length (contents fileobj))) (nat (x + z * 32)))"
    using r0(5) eq by simp
  show "\<And>x z. 0 \<le> x \<Longrightarrow> x < 32 \<Longrightarrow> 0 \<le> z \<Longrightarrow> z < 32 \<Longrightarrow>
           map_of (chunk_headers r) (x, z) = Some (chunk_entry (contents fileobj)
             (int (length (contents fileobj)))
             (slot_entry (contents fileobj) (int (length (contents fileobj))) (nat (x + z * 32))))"
    using r0(5) eq by simp
qed

lemma RegionFile_init_tables_empty:
  assumes "RegionFile_init fileobj = Inr r" "contents fileobj = []"
  shows "contents (file' r) = []"
    and "size' r = 0"
    and "header r = map (\<lambda>xz. (xz, (0, 0, 0, STATUS_CHUNK_NOT_CREATED)))
           (List.product range32 range32)"
    and "\<And>x z. 0 \<le> x \<Longrightarrow> x < 32 \<Longrightarrow> 0 \<le> z \<Longrightarrow> z < 32 \<Longrightarrow>
           map_of (header r) (x, z) = Some (0, 0, 0, STATUS_CHUNK_NOT_CREATED)"
    and "\<And>x z. 0 \<le> x \<Longrightarrow> x < 32 \<Longrightarrow> 0 \<le> z \<Longrightarrow> z < 32 \<Longrightarrow>
           map_of (chunk_headers r) (x, z) = Some (None, None, STATUS_CHUNK_NOT_CREATED)"
proof -
  from RegionFile_init_empty [of "pos fileobj"] obtain r0 where r0:
    "RegionFile_init \<lparr>contents = [], pos = pos fileobj\<rparr> = Inr r0"
    "contents (file' r0) = []" "size' r0 = 0"
    "header r0 = map (\<lambda>xz. (xz, (0, 0, 0, STATUS_CHUNK_NOT_CREATED))) (List.product range32 range32)"
    "\<forall>x z. 0 \<le> x \<and> x < 32 \<and> 0 \<le> z \<and> z < 32 \<longrightarrow>
            map_of (header r0) (x, z) = Some (0, 0, 0, STATUS_CHUNK_NOT_CREATED)
          \<and> map_of (chunk_headers r0) (x, z) = Some (None, None, STATUS_CHUNK_NOT_CREATED)"
    by blast
  have eq: "r = r0" using assms r0(1) by (cases fileobj) simp
  show "contents (file' r) = []" "size' r = 0"
    "header r = map (\<lambda>xz. (xz, (0, 0, 0, STATUS_CHUNK_NOT_CREATED)))
           (List.product range32 range32)"
    using r0 eq by simp_all
  show "\<And>x z. 0 \<le> x \<Longrightarrow> x < 32 \<Longrightarrow> 0 \<le> z \<Longrightarrow> z < 32 \<Longrightarrow>
           map_of (header r) (x, z) = Some (0, 0, 0, STATUS_CHUNK_NOT_CREATED)"
    using r0(5) eq by simp
  show "\<And>x z. 0 \<le> x \<Longrightarrow> x < 32 \<Longrightarrow> 0 \<le> z \<Longrightarrow> z < 32 \<Longrightarrow>
           map_of (chunk_headers r) (x, z) = Some (None, None, STATUS_CHUNK_NOT_CREATED)"
    using r0(5) eq by simp
qed

subsection \<open>The example file\<close>

lemma length_example_file:
  "length record \<le> n \<Longrightarrow> length (example_file [a, b, c, d] record n) = 8192 + n"
  by (simp add: example_file_def)

lemma slot_entry_example_file_0:
  "slot_entry (example_file [a, b, c, d] record n) sz 0 =
     (be_int [a, b, c], uint d, 0, header_status (be_int [a, b, c]) (uint d) sz)"
  by (simp add: slot_entry_def example_file_def Let_def)

lemma slot_entry_example_file_other:
  assumes "0 < k" "k < 1024"
  shows "slot_entry (example_file [a, b, c, d] record n) sz k = (0, 0, 0, STATUS_CHUNK_NOT_CREATED)"
proof -
  define R where "R = replicate 8188 (0::byte) @ record @ replicate (n - length record) 0"
  have F: "drop 4 (example_file [a, b, c, d] record n) = R"
    by (simp add: example_file_def R_def)
  have k4: "4 * (k - 1) + 4 = 4 * k" "4 * (k - 1) + 4096 + 4 = 4 * k + 4096"
    using assms by simp_all
  have "drop (4 * k) (example_file [a, b, c, d] record n)
      = drop (4 * (k - 1)) (drop 4 (example_file [a, b, c, d] record n))"
    unfolding drop_drop k4 ..
  then have 1: "take 4 (drop (4 * k) (example_file [a, b, c, d] record n)) = replicate 4 0"
    unfolding F using assms by (simp add: R_def min_def)
  have "drop (4 * k + 4096) (example_file [a, b, c, d] record n)
      = drop (4 * (k - 1) + 4096) (drop 4 (example_file [a, b, c, d] record n))"
    unfolding drop_drop k4 ..
  then have 2: "take 4 (drop (4 * k + 4096) (example_file [a, b, c, d] record n)) = replicate 4 0"
    unfolding F using assms by (simp add: R_def min_def)
  show ?thesis
    unfolding slot_entry_def 1 2 by (simp add: Let_def header_status_def)
qed

lemma drop_example_file:
  "drop 8192 (example_file [a, b, c, d] record n) = record @ replicate (n - length record) 0"
  by (simp add: example_file_def)

subsection \<open>The place of a new chunk\<close>


lemma append_to_end_run:
  "append_to_end r =
     (Inr (bytes_to_sector (int (length (contents (file' r))) - 1) 4096 + 1, True),
      r\<lparr>file' := (file' r)\<lparr>pos := length (contents (file' r))\<rparr>\<rparr>)"
  by (simp add: append_to_end_def exn_simps file_seek_end_apply file_tell_apply Let_def)

lemma find_sector_state:
  assumes "find_sector x z nsectors r = (res, r1)"
  shows "contents (file' r1) = contents (file' r)" "header r1 = header r"
    "chunk_headers r1 = chunk_headers r" "size' r1 = size' r"
  using assms
  by (auto simp: find_sector_def exn_simps header_get_def append_to_end_run Let_def
      split: option.splits if_splits list.splits prod.splits)

lemma find_sector_pad:
  assumes "find_sector x z nsectors r = (Inr (sector, True), r1)"
  shows "sector = bytes_to_sector (int (length (contents (file' r))) - 1) 4096 + 1"
  using assms
  by (auto simp: find_sector_def exn_simps header_get_def append_to_end_run Let_def
      split: option.splits if_splits list.splits prod.splits)


lemma find_sector_IndexError:
  assumes "map_of (header r) (x, z) = Some (offset, len, ts, status)"
    and "status = STATUS_CHUNK_NOT_CREATED \<or> status = STATUS_CHUNK_OK"
    and "\<not> nsectors \<le> len"
    and "\<forall>e \<in> set (map snd (header r)). fst e = 0"
  shows "find_sector x z nsectors r = (Inl IndexError, r)"
proof -
  have "filter (\<lambda>i. fst i \<noteq> 0) (map snd (header r)) = []"
    using assms(4) by (auto simp: filter_empty_conv)
  then show ?thesis
    using assms(1-3) by (auto simp: find_sector_def exn_simps header_get_def)
qed


subsection \<open>\<^verbatim>\<open>write_chunk\<close>\<close>

lemma write_at_write_at:
  "write_at (write_at cs p as) (p + length as) bs = write_at cs p (as @ bs)"
proof -
  define c where "c = cs @ replicate (p - length cs) 0"
  have lc: "p \<le> length c" by (simp add: c_def)
  define c1 where "c1 = take p c @ as @ drop (p + length as) c"
  have l1: "p + length as \<le> length c1" using lc by (simp add: c1_def)
  have w1: "write_at cs p as = c1" by (simp add: write_at_def c_def c1_def Let_def)
  have "write_at c1 (p + length as) bs
      = take (p + length as) c1 @ bs @ drop (p + length as + length bs) c1"
    using l1 by (simp add: write_at_def Let_def)
  also have "take (p + length as) c1 = take p c @ as" using lc by (simp add: c1_def)
  also have "drop (p + length as + length bs) c1 = drop (p + length as + length bs) c"
    using lc by (simp add: c1_def add.commute add.left_commute)
  finally show ?thesis
    unfolding w1 by (simp add: write_at_def c_def Let_def add.assoc)
qed

lemma be_bytes_length [simp]: "length (be_bytes n) = 4"
  by (simp add: be_bytes_def)

lemma be_bytes_nonempty [simp]: "be_bytes n \<noteq> []"
  by (simp add: be_bytes_def)

text \<open>Lines 425 to 436: the block is written and the file is at the slot of the table.\<close>

lemma write_chunk_data_run:
  assumes fs: "find_sector x z (bytes_to_sector (int (length (zlib_compress c (nbt_write c p))) + 5) 4096) r
      = (Inr (sector, pad_end), r1)"
    and "0 \<le> sector" "0 \<le> x" "0 \<le> z"
    and "zlib_compress c (nbt_write c p) \<noteq> []"
    and "int (length (zlib_compress c (nbt_write c p))) + 1 < 4294967296"
    and "pad_end \<longrightarrow> 0 < (sector + bytes_to_sector (int (length (zlib_compress c (nbt_write c p))) + 5) 4096) * 4096"
  shows "write_chunk c now x z p r =
     bindE (liftE (pack_IB sector
        (bytes_to_sector (int (length (zlib_compress c (nbt_write c p))) + 5) 4096))) (\<lambda>bs.
      thenE (file_write (tl bs))
     (thenE (file_seek (4096 + 4 * (x + z * 32)))
     (bindE (liftE (pack_I now)) (\<lambda>bs.
      thenE (file_write bs)
     (thenE parse_header parse_chunk_headers)))))
     (r1\<lparr>file' := (file' r1)\<lparr>contents := data_written (contents (file' r)) sector
          (bytes_to_sector (int (length (zlib_compress c (nbt_write c p))) + 5) 4096) pad_end
          (zlib_compress c (nbt_write c p)),
        pos := nat (4 * (x + z * 32))\<rparr>\<rparr>)"
proof -
  define compressed where "compressed = zlib_compress c (nbt_write c p)"
  define nsectors where "nsectors = bytes_to_sector (int (length compressed) + 5) 4096"
  define S where "S = nat (sector * 4096)"
  have cs1: "contents (file' r1) = contents (file' r)"
    using find_sector_state(1) [OF fs] .
  have pk: "pack_I (int (length compressed) + 1) = Inr (be_bytes (int (length compressed) + 1))"
    "pack_B 2 = Inr [2]"
    using assms(6) by (simp_all add: pack_I_def pack_B_def compressed_def)
  have w3: "write_at (write_at (write_at cs S (be_bytes (int (length compressed) + 1))) (S + 4) [2])
       (S + 5) compressed = write_at cs S (chunk_record compressed)" for cs
  proof -
    have "write_at (write_at cs S (be_bytes (int (length compressed) + 1))) (S + 4) [2]
        = write_at cs S (be_bytes (int (length compressed) + 1) @ [2])"
      using write_at_write_at [of cs S "be_bytes (int (length compressed) + 1)" "[2]"] by simp
    moreover have "write_at (write_at cs S (be_bytes (int (length compressed) + 1) @ [2])) (S + 5) compressed
        = write_at cs S ((be_bytes (int (length compressed) + 1) @ [2]) @ compressed)"
      using write_at_write_at [of cs S "be_bytes (int (length compressed) + 1) @ [2]" compressed]
      by simp
    ultimately show ?thesis by (simp add: chunk_record_def)
  qed
  define f1 where "f1 = file' r1"
  define ra where "ra = r1\<lparr>file' := f1\<lparr>pos := S\<rparr>\<rparr>"
  define rb where "rb = r1\<lparr>file' := f1\<lparr>contents := write_at (contents (file' r)) S
      (be_bytes (int (length compressed) + 1)), pos := S + 4\<rparr>\<rparr>"
  define rc where "rc = r1\<lparr>file' := f1\<lparr>contents := write_at (write_at (contents (file' r)) S
      (be_bytes (int (length compressed) + 1))) (S + 4) [2], pos := S + 5\<rparr>\<rparr>"
  define rd where "rd = r1\<lparr>file' := f1\<lparr>contents := write_at (contents (file' r)) S
      (chunk_record compressed), pos := S + 5 + length compressed\<rparr>\<rparr>"
  define re where "re = r1\<lparr>file' := f1\<lparr>contents :=
      data_written (contents (file' r)) sector nsectors pad_end compressed,
      pos := (if pad_end then nat ((sector + nsectors) * 4096 - 1) + 1
              else S + 5 + length compressed)\<rparr>\<rparr>"
  define rf where "rf = r1\<lparr>file' := f1\<lparr>contents :=
      data_written (contents (file' r)) sector nsectors pad_end compressed,
      pos := nat (4 * (x + z * 32))\<rparr>\<rparr>"
  have s1: "file_seek (sector * 4096) r1 = (Inr (sector * 4096), ra)"
    using assms(2) by (simp add: file_seek_apply ra_def S_def f1_def)
  have s2: "file_write (be_bytes (int (length compressed) + 1)) ra = (Inr (), rb)"
    by (simp add: file_write_apply ra_def rb_def f1_def cs1)
  have s3: "file_write [2] rb = (Inr (), rc)"
    by (simp add: file_write_apply rb_def rc_def)
  have s4: "file_write compressed rc = (Inr (), rd)"
    using assms(5) [folded compressed_def] by (simp add: file_write_apply rc_def rd_def w3)
  have s5: "(if pad_end then thenE (file_seek ((sector + nsectors) * 4096 - 1)) (file_write [0])
             else returnE ()) rd = (Inr (), re)"
  proof (cases pad_end)
    case True
    then have "0 \<le> (sector + nsectors) * 4096 - 1" using assms(7) by (simp add: nsectors_def compressed_def)
    then show ?thesis
      using True
      by (simp add: thenE_apply file_seek_apply file_write_apply rd_def re_def data_written_def
          S_def Let_def)
  next
    case False
    then show ?thesis
      by (simp add: returnE_apply rd_def re_def data_written_def S_def Let_def)
  qed
  have s6: "file_seek (4 * (x + z * 32)) re = (Inr (4 * (x + z * 32)), rf)"
    using assms(3,4) by (simp add: file_seek_apply re_def rf_def)
  have t1: "thenE (file_seek (sector * 4096)) n r1 = n ra" for n :: "(region, unit) exn"
    using s1 by (simp add: thenE_apply)
  have t2: "thenE (file_write (be_bytes (int (length compressed) + 1))) n ra = n rb"
    for n :: "(region, unit) exn"
    using s2 by (simp add: thenE_apply)
  have t3: "thenE (file_write [2]) n rb = n rc" for n :: "(region, unit) exn"
    using s3 by (simp add: thenE_apply)
  have t4: "thenE (file_write compressed) n rc = n rd" for n :: "(region, unit) exn"
    using s4 by (simp add: thenE_apply)
  have t5: "thenE (if pad_end then thenE (file_seek ((sector + nsectors) * 4096 - 1)) (file_write [0])
             else returnE ()) n rd = n re" for n :: "(region, unit) exn"
    using s5 by (simp add: thenE_apply)
  have t6: "thenE (file_seek (4 * (x + z * 32))) n re = n rf" for n :: "(region, unit) exn"
    using s6 by (simp add: thenE_apply)
  have "write_chunk c now x z p r =
     bindE (liftE (pack_IB sector nsectors)) (\<lambda>bs.
      thenE (file_write (tl bs))
     (thenE (file_seek (4096 + 4 * (x + z * 32)))
     (bindE (liftE (pack_I now)) (\<lambda>bs.
      thenE (file_write bs)
     (thenE parse_header parse_chunk_headers))))) rf"
    unfolding write_chunk_def Let_def compressed_def [symmetric] nsectors_def [symmetric]
    apply (subst bindE_apply)
    apply (simp only: fs [unfolded compressed_def [symmetric] nsectors_def [symmetric]] prod.case sum.case)
    apply (subst t1)
    apply (subst bindE_apply)
    apply (simp only: liftE_apply pk prod.case sum.case)
    apply (subst t2)
    apply (subst bindE_apply)
    apply (simp only: liftE_apply pk prod.case sum.case)
    apply (subst t3)
    apply (subst t4)
    apply (subst t5)
    apply (subst t6)
    apply (rule refl)
    done
  then show ?thesis
    by (simp add: rf_def f1_def compressed_def nsectors_def)
qed

lemma bytes_to_sector_cases:
  obtains q where "n = q * 4096" "bytes_to_sector n 4096 = q"
  | q m where "n = q * 4096 + m" "0 < m" "m < 4096" "bytes_to_sector n 4096 = q + 1"
proof (cases "n mod 4096 = 0")
  case True
  then have "n = n div 4096 * 4096" by auto
  moreover have "bytes_to_sector n 4096 = n div 4096"
    using True by (simp add: bytes_to_sector_def Let_def)
  ultimately show ?thesis using that(1) by blast
next
  case False
  have "n = n div 4096 * 4096 + n mod 4096" by simp
  moreover have "0 < n mod 4096" using False pos_mod_sign [of 4096 n] by simp
  moreover have "n mod 4096 < 4096" by simp
  moreover have "bytes_to_sector n 4096 = n div 4096 + 1"
    using False by (simp add: bytes_to_sector_def Let_def)
  ultimately show ?thesis using that(2) by blast
qed

lemma bytes_to_sector_bounds:
  "n \<le> bytes_to_sector n 4096 * 4096" "bytes_to_sector n 4096 * 4096 < n + 4096"
  by (cases n rule: bytes_to_sector_cases; simp)+

lemma bytes_to_sector_pos: "0 < n \<Longrightarrow> 1 \<le> bytes_to_sector n 4096"
  using bytes_to_sector_bounds(1) [of n] by (cases "bytes_to_sector n 4096 \<le> 0") auto

lemma bytes_to_sector_strict:
  "n mod 4096 \<noteq> 0 \<Longrightarrow> n < bytes_to_sector n 4096 * 4096"
  by (cases n rule: bytes_to_sector_cases) simp_all


text \<open>Lines 437 to 446, when the sector count does not fit its byte.\<close>

lemma write_chunk_tail_StructError:
  assumes "\<not> (0 \<le> sector \<and> sector < 4294967296 \<and> 0 \<le> nsectors \<and> nsectors < 256)"
  shows "bindE (liftE (pack_IB sector nsectors)) (\<lambda>bs.
      thenE (file_write (tl bs))
     (thenE (file_seek (4096 + 4 * (x + z * 32)))
     (bindE (liftE (pack_I now)) (\<lambda>bs.
      thenE (file_write bs)
     (thenE parse_header parse_chunk_headers))))) rf = (Inl StructError, rf)"
  using assms by (auto simp add: bindE_apply liftE_apply pack_IB_def)

lemma slot_bytes_length [simp]: "length (slot_bytes sector nsectors) = 4"
  by (simp add: slot_bytes_def be_bytes_def)

text \<open>Lines 437 to 446, when the three numbers fit their formats.\<close>

lemma write_chunk_tail_ok:
  assumes "0 \<le> sector" "sector < 4294967296" "0 \<le> nsectors" "nsectors < 256"
    and "0 \<le> now" "now < 4294967296" "0 \<le> x" "0 \<le> z"
    and "pos (file' rf) = nat (4 * (x + z * 32))"
  shows "bindE (liftE (pack_IB sector nsectors)) (\<lambda>bs.
      thenE (file_write (tl bs))
     (thenE (file_seek (4096 + 4 * (x + z * 32)))
     (bindE (liftE (pack_I now)) (\<lambda>bs.
      thenE (file_write bs)
     (thenE parse_header parse_chunk_headers))))) rf =
     thenE parse_header parse_chunk_headers
       (rf\<lparr>file' := (file' rf)\<lparr>contents := tables_written (contents (file' rf))
             (nat (x + z * 32)) sector nsectors now,
           pos := 4100 + 4 * nat (x + z * 32)\<rparr>\<rparr>)"
proof -
  have k: "nat (4 * x + 128 * z) = 4 * nat (x + z * 32)"
    "nat (4096 + (4 * x + 128 * z)) = 4 * nat (x + z * 32) + 4096"
    "\<not> 4096 + (4 * x + 128 * z) < 0"
    using assms(7,8) by auto
  have sb: "slot_bytes sector nsectors \<noteq> []" "tl (be_bytes sector @ [word_of_int nsectors])
      = slot_bytes sector nsectors"
    by (simp_all add: slot_bytes_def be_bytes_def)
  show ?thesis
    using assms(1-6)
    by (simp add: bindE_apply liftE_apply pack_IB_def pack_I_def sb
        thenE_apply [where m = "file_write v" for v] thenE_apply [where m = "file_seek v" for v]
        file_write_apply file_seek_apply assms(9) k tables_written_def)
qed

subsection \<open>The bytes after \<^verbatim>\<open>write_chunk\<close>\<close>

lemma length_chunk_record [simp]: "length (chunk_record compressed) = length compressed + 5"
  by (simp add: chunk_record_def)

lemma length_data_written:
  "length (data_written cs sector nsectors pad_end compressed) =
     (if pad_end
      then max (max (length cs) (nat (sector * 4096) + (length compressed + 5)))
             (nat ((sector + nsectors) * 4096 - 1) + 1)
      else max (length cs) (nat (sector * 4096) + (length compressed + 5)))"
  by (simp add: data_written_def Let_def length_write_at)

lemma take_drop_data_written_record:
  assumes "pad_end \<longrightarrow> nat (sector * 4096) + (length compressed + 5) \<le> nat ((sector + nsectors) * 4096 - 1)"
  shows "take (length compressed + 5) (drop (nat (sector * 4096))
           (data_written cs sector nsectors pad_end compressed)) = chunk_record compressed"
proof (cases pad_end)
  case True
  have "take (length compressed + 5) (drop (nat (sector * 4096))
          (write_at (write_at cs (nat (sector * 4096)) (chunk_record compressed))
             (nat ((sector + nsectors) * 4096 - 1)) [0]))
      = take (length compressed + 5) (drop (nat (sector * 4096))
          (write_at cs (nat (sector * 4096)) (chunk_record compressed)))"
    by (rule take_drop_write_at_before) (use assms True in \<open>auto simp: length_write_at\<close>)
  then show ?thesis
    using True take_drop_write_at_same' [of "chunk_record compressed" "length compressed + 5"]
    by (simp add: data_written_def Let_def)
next
  case False
  then show ?thesis
    using take_drop_write_at_same' [of "chunk_record compressed" "length compressed + 5"]
    by (simp add: data_written_def Let_def)
qed


lemma length_tables_written:
  "4 * k + 4100 \<le> length cs \<Longrightarrow> length (tables_written cs k sector nsectors now) = length cs"
  by (simp add: tables_written_def length_write_at)

lemma take_drop_tables_written_slot:
  "take 4 (drop (4 * k) (tables_written cs k sector nsectors now)) = slot_bytes sector nsectors"
proof -
  have "take 4 (drop (4 * k) (tables_written cs k sector nsectors now))
      = take 4 (drop (4 * k) (write_at cs (4 * k) (slot_bytes sector nsectors)))"
    unfolding tables_written_def
    by (rule take_drop_write_at_before) (simp_all add: length_write_at)
  then show ?thesis by (simp add: take_drop_write_at_same')
qed

lemma take_drop_tables_written_timestamp:
  "take 4 (drop (4 * k + 4096) (tables_written cs k sector nsectors now)) = be_bytes now"
  unfolding tables_written_def by (rule take_drop_write_at_same') simp

lemma drop_tables_written_after:
  "4 * k + 4100 \<le> q \<Longrightarrow> drop q (tables_written cs k sector nsectors now) = drop q cs"
  by (simp add: tables_written_def drop_write_at_after)

lemma be_int_slot_bytes:
  assumes "0 \<le> sector" "sector < 16777216" "0 \<le> nsectors" "nsectors < 256"
  shows "be_int (take 3 (slot_bytes sector nsectors)) = sector"
    and "uint (slot_bytes sector nsectors ! 3) = nsectors"
proof -
  have d: "sector div 16777216 = 0" using assms(1,2) by simp
  have "be_int (be_bytes sector) = sector" using assms(1,2) by (intro be_int_be_bytes) auto
  moreover have "be_bytes sector = 0 # take 3 (slot_bytes sector nsectors)"
    by (simp add: be_bytes_def slot_bytes_def d)
  ultimately show "be_int (take 3 (slot_bytes sector nsectors)) = sector" by simp
  show "uint (slot_bytes sector nsectors ! 3) = nsectors"
    using assms(3,4) by (simp add: slot_bytes_def be_bytes_def)
qed

text \<open>A write whose numbers fit their fields, at a place that lies in the file or at its end.\<close>

lemma write_chunk_ok:
  fixes c :: "'p codec"
  assumes fs: "find_sector x z nsectors r = (Inr (sector, pad_end), r1)"
    and ns: "nsectors = bytes_to_sector (int (length compressed) + 5) 4096"
    and cp: "compressed = zlib_compress c (nbt_write c p)"
    and rng: "0 \<le> x" "x < 32" "0 \<le> z" "z < 32"
    and sec: "2 \<le> sector" "sector < 16777216"
    and n255: "nsectors \<le> 255"
    and ne: "compressed \<noteq> []"
    and now: "0 \<le> now" "now < 4294967296"
    and big: "8192 \<le> length (contents (file' r))"
    and place: "if pad_end
        then int (length (contents (file' r))) \<le> sector * 4096
           \<and> (int (length compressed) + 5) mod 4096 \<noteq> 0
        else (sector + nsectors) * 4096 \<le> int (length (contents (file' r)))"
  shows "\<exists>r'. write_chunk c now x z p r = (Inr (), r')
     \<and> map_of (header r') (x, z) = Some (sector, nsectors, now, STATUS_CHUNK_OK)
     \<and> map_of (chunk_headers r') (x, z)
          = Some (Some (int (length compressed) + 1), Some 2, STATUS_CHUNK_OK)
     \<and> take (length compressed) (drop (nat (sector * 4096 + 5)) (contents (file' r'))) = compressed
     \<and> length (contents (file' r')) =
          (if pad_end then nat ((sector + nsectors) * 4096) else length (contents (file' r)))"
proof -
  define cs where "cs = contents (file' r)"
  define S where "S = nat (sector * 4096)"
  define n where "n = length compressed"
  define k where "k = nat (x + z * 32)"
  define D where "D = data_written cs sector nsectors pad_end compressed"
  define D2 where "D2 = tables_written D k sector nsectors now"
  have k: "k < 1024" "nat (4 * (x + z * 32)) = 4 * k" using rng by (auto simp: k_def)
  have n1: "1 \<le> nsectors" unfolding ns by (rule bytes_to_sector_pos) simp
  have fit: "int n + 5 \<le> nsectors * 4096"
    unfolding ns n_def by (rule bytes_to_sector_bounds)
  have n32: "int n + 1 < 4294967296" using fit n255 by simp
  have S: "8192 \<le> S" "int S = sector * 4096" using sec by (auto simp: S_def)
  have E: "nat ((sector + nsectors) * 4096) = S + nat (nsectors * 4096)"
    "nat ((sector + nsectors) * 4096 - 1) + 1 = S + nat (nsectors * 4096)"
    using sec n1 by (auto simp: S_def nat_add_distrib algebra_simps)
  have nfit: "n + 5 \<le> nat (nsectors * 4096)" using fit by linarith
  have padfit: "pad_end \<longrightarrow> S + (n + 5) \<le> nat ((sector + nsectors) * 4096 - 1)"
  proof
    assume pad_end
    then have "(int n + 5) mod 4096 \<noteq> 0" using place by (simp add: n_def)
    then have "int n + 5 < nsectors * 4096"
      unfolding ns n_def by (rule bytes_to_sector_strict)
    then have "n + 5 < nat (nsectors * 4096)" by linarith
    then show "S + (n + 5) \<le> nat ((sector + nsectors) * 4096 - 1)" using E(2) by linarith
  qed
  have lenD: "length D = (if pad_end then S + nat (nsectors * 4096) else length cs)"
  proof (cases pad_end)
    case True
    then have le: "length cs \<le> S" using place S(2) by (simp add: cs_def)
    have "length D = max (max (length cs) (S + (n + 5))) (nat ((sector + nsectors) * 4096 - 1) + 1)"
      using True by (simp only: D_def length_data_written S_def n_def if_True)
    then have "length D = max (max (length cs) (S + (n + 5))) (S + nat (nsectors * 4096))"
      by (simp only: E(2))
    then show ?thesis using True le nfit by simp
  next
    case False
    then have "int S + nsectors * 4096 \<le> int (length cs)"
      using place S(2) by (simp add: cs_def algebra_simps)
    then have le: "S + (n + 5) \<le> length cs" using nfit by linarith
    have "length D = max (length cs) (S + (n + 5))"
      using False by (simp only: D_def length_data_written S_def n_def if_False)
    then show ?thesis using False le by simp
  qed
  have lenD8: "S + (n + 5) \<le> length D" "8192 \<le> length D"
    "(sector + nsectors) * 4096 \<le> int (length D)"
  proof -
    show "S + (n + 5) \<le> length D"
      using lenD nfit place S(2) by (auto simp: cs_def split: if_splits)
    then show "8192 \<le> length D" using S(1) by simp
    show "(sector + nsectors) * 4096 \<le> int (length D)"
      using lenD place S(2) n1 by (auto simp: cs_def algebra_simps split: if_splits)
  qed
  have lenD2: "length D2 = length D"
    unfolding D2_def using k lenD8(2) by (intro length_tables_written) simp
  have rec: "take (n + 5) (drop S D) = chunk_record compressed"
    unfolding D_def S_def n_def
    by (rule take_drop_data_written_record) (use padfit in \<open>simp add: S_def n_def\<close>)
  have dropD2: "drop S D2 = drop S D"
    unfolding D2_def using k S(1) by (intro drop_tables_written_after) simp
  have L: "take 4 (drop S D2) = be_bytes (int n + 1)"
  proof -
    have "take 4 (drop S D) = take 4 (take (n + 5) (drop S D))" by simp
    also have "\<dots> = be_bytes (int n + 1)" unfolding rec by (simp add: chunk_record_def n_def)
    finally show ?thesis by (simp add: dropD2)
  qed
  have C: "D2 ! (S + 4) = 2"
  proof -
    have "D2 ! (S + 4) = drop S D2 ! 4" using lenD2 lenD8(1) by simp
    also have "\<dots> = take (n + 5) (drop S D) ! 4" by (simp add: dropD2)
    also have "\<dots> = 2" unfolding rec by (simp add: chunk_record_def nth_append)
    finally show ?thesis .
  qed
  have data: "take n (drop (S + 5) D2) = compressed"
  proof -
    have "take n (drop (S + 5) D2) = take n (drop 5 (drop S D))"
      by (simp add: dropD2 [symmetric] add.commute)
    also have "\<dots> = drop 5 (take (n + 5) (drop S D))" by (simp add: drop_take add.commute)
    also have "\<dots> = compressed" unfolding rec by (simp add: chunk_record_def)
    finally show ?thesis .
  qed
  have slot: "slot_entry D2 (int (length D2)) k = (sector, nsectors, now, STATUS_CHUNK_OK)"
  proof -
    have "header_status sector nsectors (int (length D2)) = STATUS_CHUNK_OK"
      using sec n1 lenD8(3) lenD2 by (simp add: header_status_def)
    moreover have "be_int (be_bytes now) = now" using now by (rule be_int_be_bytes)
    ultimately show ?thesis
      using be_int_slot_bytes [of sector nsectors] sec n1 n255
      by (simp add: slot_entry_def Let_def D2_def take_drop_tables_written_slot
          take_drop_tables_written_timestamp)
  qed
  have chunk: "chunk_entry D2 (int (length D2)) (sector, nsectors, now, STATUS_CHUNK_OK)
      = (Some (int n + 1), Some 2, STATUS_CHUNK_OK)"
  proof -
    have "be_int (be_bytes (int n + 1)) = int n + 1" using n32 by (intro be_int_be_bytes) auto
    then show ?thesis
      using fit by (simp add: chunk_entry_def Let_def S_def [symmetric] L C status_defs)
  qed
  have run1: "write_chunk c now x z p r =
     bindE (liftE (pack_IB sector nsectors)) (\<lambda>bs.
      thenE (file_write (tl bs))
     (thenE (file_seek (4096 + 4 * (x + z * 32)))
     (bindE (liftE (pack_I now)) (\<lambda>bs.
      thenE (file_write bs)
     (thenE parse_header parse_chunk_headers)))))
     (r1\<lparr>file' := (file' r1)\<lparr>contents := D, pos := nat (4 * (x + z * 32))\<rparr>\<rparr>)"
    unfolding D_def cs_def ns cp
    by (rule write_chunk_data_run)
      (use fs sec rng ne n32 n1 in \<open>auto simp: ns cp n_def\<close>)
  have run2: "write_chunk c now x z p r = thenE parse_header parse_chunk_headers
      (r1\<lparr>file' := (file' r1)\<lparr>contents := D2, pos := 4100 + 4 * k\<rparr>\<rparr>)"
    unfolding run1
    by (subst write_chunk_tail_ok) (use sec n1 n255 now rng in \<open>auto simp: D2_def k_def\<close>)
  have "8192 \<le> length (contents (file' (r1\<lparr>file' := (file' r1)\<lparr>contents := D2,
      pos := 4100 + 4 * k\<rparr>\<rparr>)))"
    using lenD2 lenD8(2) by simp
  from reparse_ok [OF this] obtain r' where r':
    "thenE parse_header parse_chunk_headers
       (r1\<lparr>file' := (file' r1)\<lparr>contents := D2, pos := 4100 + 4 * k\<rparr>\<rparr>) = (Inr (), r')"
    "contents (file' r') = D2"
    "map_of (header r') (x, z) = Some (slot_entry D2 (int (length D2)) k)"
    "map_of (chunk_headers r') (x, z) = Some (chunk_entry D2 (int (length D2))
        (slot_entry D2 (int (length D2)) k))"
    using rng by (auto simp: k_def)
  have "nat (sector * 4096 + 5) = S + 5" using sec by (simp add: S_def nat_add_distrib)
  then show ?thesis
    using run2 r' slot chunk data lenD2 lenD E(1)
    by (auto simp: n_def cs_def)
qed

subsection \<open>The entries of an opened container\<close>









subsection \<open>\<^verbatim>\<open>write_chunk\<close> on a container without bytes\<close>

lemma write_chunk_empty_container:
  fixes c :: "'p codec"
  assumes "RegionFile_init fileobj = Inr r" "contents fileobj = []"
    and "0 \<le> x" "x < 32" "0 \<le> z" "z < 32"
  shows "write_chunk c now x z p r = (Inl IndexError, r)"
proof -
  define nsectors where
    "nsectors = bytes_to_sector (int (length (zlib_compress c (nbt_write c p))) + 5) 4096"
  note tabs = RegionFile_init_tables_empty [OF assms(1,2)]
  have n1: "\<not> nsectors \<le> 0"
    using bytes_to_sector_pos [of "int (length (zlib_compress c (nbt_write c p))) + 5"]
    by (simp add: nsectors_def)
  have he: "map_of (header r) (x, z) = Some (0, 0, 0, STATUS_CHUNK_NOT_CREATED)"
    using tabs(4) [OF assms(3-6)] .
  have all0: "\<forall>e \<in> set (map snd (header r)). fst e = 0"
    unfolding tabs(3) by auto
  have "find_sector x z nsectors r = (Inl IndexError, r)"
    by (rule find_sector_IndexError [OF he _ n1 all0]) simp
  then show ?thesis
    by (simp add: write_chunk_def Let_def bindE_apply nsectors_def)
qed

subsection \<open>\<^verbatim>\<open>write_chunk\<close> with more than 255 sectors\<close>


subsection \<open>\<^verbatim>\<open>write_chunk\<close> at the end of the file\<close>

lemma bytes_to_sector_pred:
  assumes "m mod 4096 \<noteq> 1"
  shows "bytes_to_sector (m - 1) 4096 = bytes_to_sector m 4096"
proof -
  define q where "q = m div 4096"
  define t where "t = m mod 4096"
  have m: "m = 4096 * q + t" by (simp add: q_def t_def)
  have r: "0 \<le> t" "t < 4096" "t \<noteq> 1" using assms by (simp_all add: t_def)
  have b: "bytes_to_sector m 4096 = (if t = 0 then q else q + 1)"
    by (simp add: bytes_to_sector_def Let_def q_def t_def)
  show ?thesis
  proof (cases "t = 0")
    case True
    then have eq: "m - 1 = 4096 * (q - 1) + 4095" using m by simp
    have "(m - 1) div 4096 = q - 1"
      by (rule int_div_pos_eq [OF eq]) simp_all
    moreover have "(m - 1) mod 4096 = 4095"
      by (rule int_mod_pos_eq [OF eq]) simp_all
    ultimately show ?thesis using True b by (simp add: bytes_to_sector_def Let_def)
  next
    case False
    then have two: "2 \<le> t" using r by simp
    have eq: "m - 1 = 4096 * q + (t - 1)" using m by simp
    have "(m - 1) div 4096 = q"
      by (rule int_div_pos_eq [OF eq]) (use two r in auto)
    moreover have "(m - 1) mod 4096 = t - 1"
      by (rule int_mod_pos_eq [OF eq]) (use two r in auto)
    ultimately show ?thesis using False two b by (simp add: bytes_to_sector_def Let_def)
  qed
qed

lemma write_at_beyond:
  "length cs \<le> p \<Longrightarrow> write_at cs p bs = cs @ replicate (p - length cs) 0 @ bs"
  by (simp add: write_at_def Let_def)

text \<open>After a record written at or after the end of the file and the byte of line 433,
  the bytes after the record are zero up to the end of the sectors.\<close>

lemma write_at_pad_tail:
  assumes "length cs \<le> S" "length rec \<le> N" "0 < N"
  shows "drop (S + length rec) (write_at (write_at cs S rec) (S + N - 1) [0])
     = replicate (N - length rec) 0"
proof -
  define X where "X = write_at cs S rec"
  have X: "X = cs @ replicate (S - length cs) 0 @ rec"
    unfolding X_def using assms(1) by (rule write_at_beyond)
  have lX: "length X = S + length rec" using assms(1) by (simp add: X)
  show ?thesis
  proof (cases "length rec = N")
    case True
    have "length (write_at X (S + N - 1) [0]) = S + length rec"
      using lX True assms(3) by (simp add: length_write_at)
    then show ?thesis unfolding X_def [symmetric] using True by simp
  next
    case False
    then have lt: "length X \<le> S + N - 1" using assms(2) lX by simp
    have "write_at X (S + N - 1) [0] = X @ replicate (S + N - 1 - length X) 0 @ [0]"
      using lt by (rule write_at_beyond)
    then have "drop (S + length rec) (write_at X (S + N - 1) [0])
        = replicate (S + N - 1 - length X) 0 @ [0]"
      using lX by simp
    also have "\<dots> = replicate (Suc (S + N - 1 - length X)) 0"
      by (simp only: replicate_Suc replicate_append_same)
    also have "Suc (S + N - 1 - length X) = N - length rec"
      using lX False assms(2) by simp
    finally show ?thesis unfolding X_def .
  qed
qed

lemma write_chunk_append:
  fixes c :: "'p codec"
  assumes fs: "find_sector x z nsectors r = (Inr (sector, True), r1)"
    and ns: "nsectors = bytes_to_sector (int (length (zlib_compress c (nbt_write c p))) + 5) 4096"
    and rng: "0 \<le> x" "x < 32" "0 \<le> z" "z < 32"
    and big: "8192 \<le> length (contents (file' r))"
    and ne: "zlib_compress c (nbt_write c p) \<noteq> []"
    and n32: "int (length (zlib_compress c (nbt_write c p))) + 1 < 4294967296"
    and now: "0 \<le> now" "now < 4294967296"
  shows "int (length (contents (file' r))) \<le> sector * 4096"
    and "length (contents (file' (snd (write_chunk c now x z p r))))
           = nat ((sector + nsectors) * 4096)"
    and "take 5 (drop (nat (sector * 4096)) (contents (file' (snd (write_chunk c now x z p r)))))
           = be_bytes (int (length (zlib_compress c (nbt_write c p))) + 1) @ [2]"
    and "drop (nat (sector * 4096) + (length (zlib_compress c (nbt_write c p)) + 5))
           (contents (file' (snd (write_chunk c now x z p r))))
           = replicate (nat (nsectors * 4096) - (length (zlib_compress c (nbt_write c p)) + 5)) 0"
proof -
  define compressed where "compressed = zlib_compress c (nbt_write c p)"
  define cs where "cs = contents (file' r)"
  define S where "S = nat (sector * 4096)"
  define n where "n = length compressed"
  define k where "k = nat (x + z * 32)"
  define D where "D = data_written cs sector nsectors True compressed"
  define D2 where "D2 = tables_written D k sector nsectors now"
  have k: "k < 1024" using rng by (auto simp: k_def)
  have s: "sector = bytes_to_sector (int (length cs) - 1) 4096 + 1"
    using find_sector_pad [OF fs] by (simp add: cs_def)
  have lo: "int (length cs) - 1 \<le> bytes_to_sector (int (length cs) - 1) 4096 * 4096"
    by (rule bytes_to_sector_bounds)
  then have s3: "2 \<le> sector" using big s by (simp add: cs_def)
  show le: "int (length (contents (file' r))) \<le> sector * 4096"
    using lo s by (simp add: cs_def algebra_simps)
  have n1: "1 \<le> nsectors" unfolding ns by (rule bytes_to_sector_pos) simp
  have fit: "int n + 5 \<le> nsectors * 4096"
    unfolding ns n_def compressed_def by (rule bytes_to_sector_bounds)
  have S: "8192 \<le> S" "int S = sector * 4096" "length cs \<le> S"
    using s3 le by (auto simp: S_def cs_def)
  have E: "nat ((sector + nsectors) * 4096) = S + nat (nsectors * 4096)"
    "nat ((sector + nsectors) * 4096 - 1) + 1 = S + nat (nsectors * 4096)"
    using s3 n1 by (auto simp: S_def nat_add_distrib algebra_simps)
  have nfit: "n + 5 \<le> nat (nsectors * 4096)" "4096 \<le> nat (nsectors * 4096)"
    using fit n1 by linarith+
  have lenD: "length D = S + nat (nsectors * 4096)"
  proof -
    have "length D = max (max (length cs) (S + (n + 5))) (nat ((sector + nsectors) * 4096 - 1) + 1)"
      by (simp only: D_def length_data_written S_def n_def if_True)
    then have "length D = max (max (length cs) (S + (n + 5))) (S + nat (nsectors * 4096))"
      by (simp only: E(2))
    then show ?thesis using S(3) nfit by simp
  qed
  have lenD2: "length D2 = length D"
    unfolding D2_def using k lenD S(1) by (intro length_tables_written) simp
  have hdr: "take 5 (drop S D) = be_bytes (int n + 1) @ [2]"
  proof -
    have "take 5 (drop S D) = take 5 (drop S (write_at cs S (chunk_record compressed)))"
      unfolding D_def data_written_def Let_def if_True S_def [symmetric]
      by (rule take_drop_write_at_before) (use E(2) nfit in \<open>auto simp: length_write_at\<close>)
    also have "\<dots> = take 5 (take (n + 5) (drop S (write_at cs S (chunk_record compressed))))"
      by simp
    also have "take (n + 5) (drop S (write_at cs S (chunk_record compressed)))
        = chunk_record compressed"
      by (rule take_drop_write_at_same') (simp add: n_def)
    also have "take 5 (chunk_record compressed) = be_bytes (int n + 1) @ [2]"
      by (simp add: chunk_record_def n_def)
    finally show ?thesis .
  qed
  have dropD2: "drop S D2 = drop S D"
    unfolding D2_def using k S(1) by (intro drop_tables_written_after) simp
  define rf where "rf = r1\<lparr>file' := (file' r1)\<lparr>contents := D, pos := nat (4 * (x + z * 32))\<rparr>\<rparr>"
  have run: "write_chunk c now x z p r =
     bindE (liftE (pack_IB sector nsectors)) (\<lambda>bs.
      thenE (file_write (tl bs))
     (thenE (file_seek (4096 + 4 * (x + z * 32)))
     (bindE (liftE (pack_I now)) (\<lambda>bs.
      thenE (file_write bs)
     (thenE parse_header parse_chunk_headers))))) rf"
    unfolding rf_def D_def cs_def ns compressed_def
    by (rule write_chunk_data_run)
      (use fs s3 rng ne n32 n1 in \<open>auto simp: ns\<close>)
  have res: "contents (file' (snd (write_chunk c now x z p r))) = D
      \<or> contents (file' (snd (write_chunk c now x z p r))) = D2"
  proof (cases "sector < 4294967296 \<and> nsectors < 256")
    case True
    have "write_chunk c now x z p r = thenE parse_header parse_chunk_headers
       (rf\<lparr>file' := (file' rf)\<lparr>contents := tables_written (contents (file' rf))
             (nat (x + z * 32)) sector nsectors now,
           pos := 4100 + 4 * nat (x + z * 32)\<rparr>\<rparr>)"
      unfolding run
      by (rule write_chunk_tail_ok) (use True s3 n1 now rng in \<open>auto simp: rf_def\<close>)
    moreover have "8192 \<le> length (contents (file' (rf\<lparr>file' := (file' rf)\<lparr>contents :=
        tables_written (contents (file' rf)) (nat (x + z * 32)) sector nsectors now,
           pos := 4100 + 4 * nat (x + z * 32)\<rparr>\<rparr>)))"
      using lenD2 lenD S(1) by (simp add: rf_def D2_def k_def)
    ultimately show ?thesis
      using reparse_ok [of "rf\<lparr>file' := (file' rf)\<lparr>contents :=
        tables_written (contents (file' rf)) (nat (x + z * 32)) sector nsectors now,
           pos := 4100 + 4 * nat (x + z * 32)\<rparr>\<rparr>"]
      by (auto simp: rf_def D2_def k_def)
  next
    case False
    have "write_chunk c now x z p r = (Inl StructError, rf)"
      unfolding run by (rule write_chunk_tail_StructError) (use False in auto)
    then show ?thesis by (simp add: rf_def)
  qed
  show "length (contents (file' (snd (write_chunk c now x z p r))))
           = nat ((sector + nsectors) * 4096)"
    using res lenD lenD2 E(1) by auto
  show "take 5 (drop (nat (sector * 4096)) (contents (file' (snd (write_chunk c now x z p r)))))
           = be_bytes (int (length (zlib_compress c (nbt_write c p))) + 1) @ [2]"
    using res hdr dropD2 by (auto simp: S_def n_def compressed_def)
  have lrec: "length (chunk_record compressed) = n + 5"
    by (simp add: length_chunk_record n_def)
  have "drop (S + length (chunk_record compressed))
      (write_at (write_at cs S (chunk_record compressed)) (S + nat (nsectors * 4096) - 1) [0])
     = replicate (nat (nsectors * 4096) - length (chunk_record compressed)) 0"
    by (rule write_at_pad_tail) (use S(3) nfit lrec in simp_all)
  moreover have "nat ((sector + nsectors) * 4096 - 1) = S + nat (nsectors * 4096) - 1"
    using E(2) by simp
  ultimately have tailD: "drop (S + (n + 5)) D = replicate (nat (nsectors * 4096) - (n + 5)) 0"
    by (simp add: D_def data_written_def Let_def S_def [symmetric] lrec n_def)
  have "drop (S + (n + 5)) D2 = drop (S + (n + 5)) D"
    unfolding D2_def using k S(1) by (intro drop_tables_written_after) simp
  then show "drop (nat (sector * 4096) + (length (zlib_compress c (nbt_write c p)) + 5))
           (contents (file' (snd (write_chunk c now x z p r))))
           = replicate (nat (nsectors * 4096) - (length (zlib_compress c (nbt_write c p)) + 5)) 0"
    using res tailD by (auto simp: S_def n_def compressed_def)
qed

subsection \<open>The example container\<close>

lemma map_upt_first_const:
  assumes "0 < n" "\<And>k. 0 < k \<Longrightarrow> k < n \<Longrightarrow> f k = c"
  shows "map f [0..<n] = f 0 # replicate (n - 1) c"
proof -
  have "[0..<n] = 0 # [Suc 0..<n]" using assms(1) by (rule upt_conv_Cons)
  moreover have "map f [Suc 0..<n] = replicate (n - 1) c"
    using assms(2) by (auto simp: list_eq_iff_nth_eq)
  ultimately show ?thesis by simp
qed

text \<open>The example file with one record of one sector at sector 2, opened.\<close>

lemma example_container_opens:
  assumes "length record \<le> n"
  shows "\<exists>r. RegionFile_init \<lparr>contents = example_file [0, 0, 2, 1] record n, pos = 0\<rparr> = Inr r"
proof -
  have "8192 \<le> length (example_file [0, 0, 2, 1] record n)"
    using assms by (simp only: length_example_file)
  from RegionFile_init_ok [OF this, of 0] show ?thesis by blast
qed

lemma example_container_values:
  assumes init: "RegionFile_init \<lparr>contents = example_file [0, 0, 2, 1] record n, pos = 0\<rparr> = Inr r"
    and n: "length record \<le> n" "4096 \<le> n"
  shows "map snd (header r) = (2, 1, 0, STATUS_CHUNK_OK) # replicate 1023 (0, 0, 0, STATUS_CHUNK_NOT_CREATED)"
proof -
  define F where "F = example_file [0, 0, 2, 1] record n"
  have len: "length F = 8192 + n" unfolding F_def using n(1) by (rule length_example_file)
  have big: "8192 \<le> length (contents \<lparr>contents = F, pos = 0\<rparr>)" using len by simp
  note tabs = RegionFile_init_tables [OF init [folded F_def] big]
  have e0: "slot_entry F (int (length F)) 0 = (2, 1, 0, STATUS_CHUNK_OK)"
    unfolding len using n(2)
    by (simp add: F_def slot_entry_example_file_0 be_int_def header_status_def)
  have other: "slot_entry F (int (length F)) k = (0, 0, 0, STATUS_CHUNK_NOT_CREATED)"
    if "0 < k" "k < 1024" for k
    unfolding F_def using that by (rule slot_entry_example_file_other)
  have "map snd (header r) = map (slot_entry F (int (length F))) [0..<1024]"
    unfolding tabs(3) by (simp only: map_map comp_def snd_conv pyfile.select_convs)
  also have "\<dots> = slot_entry F (int (length F)) 0
      # replicate (1024 - 1) (0, 0, 0, STATUS_CHUNK_NOT_CREATED)"
    by (rule map_upt_first_const) (simp_all add: other)
  finally show ?thesis by (simp only: e0) simp
qed

lemma filter_replicate_none: "\<not> P y \<Longrightarrow> filter P (replicate n y) = []"
  by (induction n) simp_all



lemma example_container_find_sector:
  assumes init: "RegionFile_init \<lparr>contents = example_file [0, 0, 2, 1] record n, pos = 0\<rparr> = Inr r"
    and n: "length record \<le> n" "4096 \<le> n"
    and rng: "0 \<le> x" "x < 32" "0 \<le> z" "z < 32" "(x, z) \<noteq> (0, 0)"
    and n1: "1 \<le> nsectors"
  shows "find_sector x z nsectors r =
     (Inr (bytes_to_sector (int (8192 + n) - 1) 4096 + 1, True),
      r\<lparr>file' := (file' r)\<lparr>pos := 8192 + n\<rparr>\<rparr>)"
proof -
  define F where "F = example_file [0, 0, 2, 1] record n"
  have len: "length F = 8192 + n" unfolding F_def using n(1) by (rule length_example_file)
  have big: "8192 \<le> length (contents \<lparr>contents = F, pos = 0\<rparr>)" using len by simp
  note tabs = RegionFile_init_tables [OF init [folded F_def] big]
  have k: "0 < nat (x + z * 32)" "nat (x + z * 32) < 1024" using rng by auto
  have he: "map_of (header r) (x, z) = Some (0, 0, 0, STATUS_CHUNK_NOT_CREATED)"
    using tabs(4) [OF rng(1-4)] slot_entry_example_file_other [OF k] by (simp add: F_def)
  have l: "sort (filter (\<lambda>i. fst i \<noteq> 0) (map snd (header r))) = [(2, 1, 0, STATUS_CHUNK_OK)]"
    unfolding example_container_values [OF init n] by (simp add: filter_replicate_none)
  have "find_sector x z nsectors r = append_to_end r"
    using n1 by (simp add: find_sector_def bindE_apply header_get_def he l Let_def)
  then show ?thesis
    using tabs(1) len by (simp add: append_to_end_run)
qed

subsection \<open>\<^verbatim>\<open>write_chunk\<close> with a record whose length does not fit four bytes\<close>



lemma bytes_to_sector_pred_1:
  assumes "m mod 4096 = 1"
  shows "bytes_to_sector (m - 1) 4096 + 1 = bytes_to_sector m 4096"
proof -
  define q where "q = m div 4096"
  have m: "m = 4096 * q + 1" using assms by (simp add: q_def) (metis mult_div_mod_eq)
  have eq: "m - 1 = 4096 * q + 0" using m by simp
  have "(m - 1) div 4096 = q" by (rule int_div_pos_eq [OF eq]) simp_all
  moreover have "(m - 1) mod 4096 = 0" by (rule int_mod_pos_eq [OF eq]) simp_all
  ultimately show ?thesis using assms by (simp add: bytes_to_sector_def Let_def q_def)
qed

text \<open>Only a container opened from a file with both tables reaches the end of the search.\<close>

lemma find_sector_pad_opened:
  assumes init: "RegionFile_init fileobj = Inr r"
    and rng: "0 \<le> x" "x < 32" "0 \<le> z" "z < 32"
    and fs: "find_sector x z nsectors r = (Inr (sector, True), r1)"
  shows "8192 \<le> length (contents fileobj)"
proof (rule ccontr)
  assume "\<not> 8192 \<le> length (contents fileobj)"
  then have empty: "contents fileobj = []" using RegionFile_init_cases [OF init] by simp
  note tabs = RegionFile_init_tables_empty [OF init empty]
  have he: "map_of (header r) (x, z) = Some (0, 0, 0, STATUS_CHUNK_NOT_CREATED)"
    using tabs(4) [OF rng] .
  show False
  proof (cases "nsectors \<le> 0")
    case True
    then have "find_sector x z nsectors r = (Inr (0, False), r)"
      by (simp add: find_sector_def exn_simps header_get_def he)
    with fs show False by simp
  next
    case False
    have all0: "\<forall>e \<in> set (map snd (header r)). fst e = 0"
      unfolding tabs(3) by auto
    have "find_sector x z nsectors r = (Inl IndexError, r)"
      by (rule find_sector_IndexError [OF he _ False all0]) simp
    with fs show False by simp
  qed
qed

section \<open>The claims\<close>

subsection \<open>C2: the coarse status of a table entry\<close>

text \<open>
  \<^bold>\<open>C2\<close>. For a file of at least 8192 bytes, \<^verbatim>\<open>parse_header\<close> returns, and the entry it stores
  for a coordinate \<open>(x, z)\<close> holds the offset and the length read from the slot's four bytes
  with the status that the specification's list of checks gives, the first match winning:
  not created, mismatched lengths, in header, out of file, else ok. The chain of the code
  and that list agree on every offset, length and file size, and an entry with offset 1 and
  length 0 has the status of mismatched lengths.
\<close>

theorem C2_coarse_status_first_match:
  assumes "8192 \<le> length (contents (file' r))" "0 \<le> x" "x < 32" "0 \<le> z" "z < 32"
  shows "(\<exists>r' offset length' timestamp.
            parse_header r = (Inr (), r')
          \<and> map_of (header r') (x, z) = Some (offset, length', timestamp,
                coarse_status_spec offset length' (int (length (contents (file' r)))))
          \<and> offset = be_int (take 3 (drop (nat (4 * (x + z * 32))) (contents (file' r))))
          \<and> length' = uint (contents (file' r) ! (nat (4 * (x + z * 32)) + 3)))
       \<and> header_status off len fsize = coarse_status_spec off len fsize
       \<and> coarse_status_spec 1 0 fsize = STATUS_CHUNK_MISMATCHED_LENGTHS"
proof -
  define cs where "cs = contents (file' r)"
  define k where "k = nat (x + z * 32)"
  have eq: "header_status a b s = coarse_status_spec a b s" for a b s
    by (simp add: header_status_def coarse_status_spec_def)
  obtain r' where r': "parse_header r = (Inr (), r')"
    "header r' = fold (\<lambda>k. AList.update (slot_key k) (slot_entry cs (int (length cs)) k))
        [0..<1024] (header r)"
    using parse_header_ok [OF assms(1)] by (auto simp: cs_def)
  have look: "map_of (header r') (x, z) = Some (slot_entry cs (int (length cs)) k)"
    unfolding r'(2) k_def using assms(2-5) by (rule header_lookup_fold)
  have k: "k < 1024" "nat (4 * (x + z * 32)) = 4 * k" using assms(2-5) by (auto simp: k_def)
  have "4 * k + 3 < length cs" using k assms(1) by (simp add: cs_def)
  then have "take 4 (drop (4 * k) cs) ! 3 = cs ! (4 * k + 3)" by simp
  then have "slot_entry cs (int (length cs)) k =
      (be_int (take 3 (drop (4 * k) cs)), uint (cs ! (4 * k + 3)),
       be_int (take 4 (drop (4 * k + 4096) cs)),
       coarse_status_spec (be_int (take 3 (drop (4 * k) cs))) (uint (cs ! (4 * k + 3)))
         (int (length cs)))"
    by (simp add: slot_entry_def Let_def eq)
  then show ?thesis
    using r'(1) look k eq by (simp add: cs_def coarse_status_spec_def)
qed

theorem C2_witness:
  "8192 \<le> length (contents (file' \<lparr>file' = \<lparr>contents = replicate 8192 0, pos = 0\<rparr>, size' = 0,
       header = [], chunk_headers = []\<rparr>))
   \<and> (\<exists>r' offset length' timestamp.
        parse_header \<lparr>file' = \<lparr>contents = replicate 8192 0, pos = 0\<rparr>, size' = 0,
          header = [], chunk_headers = []\<rparr> = (Inr (), r')
      \<and> map_of (header r') (3, 4) = Some (offset, length', timestamp,
           coarse_status_spec offset length' 8192))
   \<and> header_status 1 0 8192 = coarse_status_spec 1 0 8192
   \<and> coarse_status_spec 1 0 8192 = STATUS_CHUNK_MISMATCHED_LENGTHS"
  using C2_coarse_status_first_match [where r = "\<lparr>file' = \<lparr>contents = replicate 8192 0, pos = 0\<rparr>,
      size' = 0, header = [], chunk_headers = []\<rparr>" and x = 3 and z = 4 and off = 1 and len = 0
      and fsize = 8192]
  by auto

subsection \<open>C10: the reading operations write nothing\<close>

text \<open>
  \<^bold>\<open>C10\<close>. Reading a record (\<^verbatim>\<open>get_chunk\<close>, \<^verbatim>\<open>get_nbt\<close>), fetching a timestamp, listing the
  coordinates (\<^verbatim>\<open>get_chunk_coords\<close>, \<^verbatim>\<open>get_chunks\<close>), counting the records and iterating
  over the decoded records leave the bytes of the file as they were, from every state of the
  container and whether the call returns or raises: only the position of the file moves.
\<close>

theorem C10_reads_leave_file_bytes:
  "contents (file' (snd (get_chunk c x z r))) = contents (file' r)
   \<and> contents (file' (snd (get_nbt c x z r))) = contents (file' r)
   \<and> contents (file' (snd (get_timestamp x z r))) = contents (file' r)
   \<and> contents (file' (snd (get_chunk_coords r))) = contents (file' r)
   \<and> contents (file' (snd (get_chunks r))) = contents (file' r)
   \<and> contents (file' (snd (chunk_count r))) = contents (file' r)
   \<and> contents (file' (snd (iter_chunks c r))) = contents (file' r)"
proof -
  have "contents (file' (snd (get_timestamp x z r))) = contents (file' r)"
    by (simp add: get_timestamp_def exn_simps header_get_def split: option.splits prod.splits)
  moreover have "contents (file' (snd (chunk_count r))) = contents (file' r)"
    unfolding chunk_count_def
    by (rule bindE_contents [OF get_chunk_coords_contents]) (simp add: returnE_apply)
  ultimately show ?thesis
    by (simp add: get_chunk_contents get_nbt_def get_chunk_coords_contents get_chunks_def
        iter_chunks_contents)
qed

subsection \<open>C3: a file shorter than its header\<close>

text \<open>
  \<^bold>\<open>C3\<close>, as the code has it. For a file of more than 0 and less than 8192 bytes,
  \<^verbatim>\<open>parse_header\<close> sets every slot to not created and raises \<^verbatim>\<open>NoRegionHeader\<close>; the
  exception leaves the constructor, so opening returns no container. At the raise the
  bytes of the file are as they were and \<^verbatim>\<open>chunk_headers\<close> is still the empty dictionary,
  \<^verbatim>\<open>parse_chunk_headers\<close> not having run.
\<close>

theorem C3_small_file_open_raises:
  assumes "0 < length (contents fileobj)" "length (contents fileobj) < 8192"
  shows "RegionFile_init fileobj
           = Inl (NoRegionHeader ''The region file is too small in size to have a header.'')
       \<and> (\<exists>r'. parse_header \<lparr>file' = fileobj, size' = 0, header = [], chunk_headers = []\<rparr>
               = (Inl (NoRegionHeader ''The region file is too small in size to have a header.''), r')
             \<and> contents (file' r') = contents fileobj
             \<and> chunk_headers r' = []
             \<and> (\<forall>x z. 0 \<le> x \<and> x < 32 \<and> 0 \<le> z \<and> z < 32 \<longrightarrow>
                   map_of (header r') (x, z) = Some (0, 0, 0, STATUS_CHUNK_NOT_CREATED)))"
proof -
  have "RegionFile_init fileobj
           = Inl (NoRegionHeader ''The region file is too small in size to have a header.'')"
    using RegionFile_init_small [OF assms, of "pos fileobj"] by (cases fileobj) simp
  moreover have "map_of (fold (\<lambda>xz. AList.update xz (0, 0, 0, STATUS_CHUNK_NOT_CREATED))
             (List.product range32 range32) []) (x, z) = Some (0, 0, 0, STATUS_CHUNK_NOT_CREATED)"
    if "0 \<le> x" "x < 32" "0 \<le> z" "z < 32" for x z :: int
    using that by (simp add: map_of_fold_const)
  ultimately show ?thesis
    using assms by (auto simp add: parse_header_small)
qed

theorem C3_witness:
  "0 < length (contents \<lparr>contents = [1, 2, 3], pos = 0\<rparr>)
   \<and> length (contents \<lparr>contents = [1, 2, 3], pos = 0\<rparr>) < 8192
   \<and> RegionFile_init \<lparr>contents = [1, 2, 3], pos = 0\<rparr>
        = Inl (NoRegionHeader ''The region file is too small in size to have a header.'')"
  using C3_small_file_open_raises [of "\<lparr>contents = [1, 2, 3], pos = 0\<rparr>"] by simp

text \<open>
  The claim as stated, that the container is left usable, fails on a file of 100 zero
  bytes: the constructor raises and returns no container.
\<close>

theorem C3_counterexample:
  "RegionFile_init \<lparr>contents = replicate 100 0, pos = 0\<rparr>
     = Inl (NoRegionHeader ''The region file is too small in size to have a header.'')"
  by (rule RegionFile_init_small) simp_all

subsection \<open>C8: deleting a record\<close>

text \<open>
  \<^bold>\<open>C8\<close>. On a file of at least 8192 bytes and for a coordinate \<open>(x, z)\<close> of the 32 by 32
  slots, \<^verbatim>\<open>unlink_chunk\<close> returns; the file keeps its length, the four bytes of the slot in
  the table of offsets and the four bytes of the slot in the table of timestamps are zero,
  every other byte is as it was, and \<^verbatim>\<open>get_chunk\<close> of the coordinate then raises
  \<^verbatim>\<open>InconceivedChunk\<close>, a lookup error that is no \<^verbatim>\<open>RegionFileFormatError\<close>.
\<close>

theorem C8_unlink_zeroes_two_fields:
  assumes "8192 \<le> length (contents (file' r))" "0 \<le> x" "x < 32" "0 \<le> z" "z < 32"
  shows "\<exists>r'. unlink_chunk x z r = (Inr (), r')
          \<and> length (contents (file' r')) = length (contents (file' r))
          \<and> (\<forall>i. i < length (contents (file' r)) \<longrightarrow>
                contents (file' r') ! i =
                  (if nat (4 * (x + z * 32)) \<le> i \<and> i < nat (4 * (x + z * 32)) + 4
                      \<or> 4096 + nat (4 * (x + z * 32)) \<le> i \<and> i < 4096 + nat (4 * (x + z * 32)) + 4
                   then 0 else contents (file' r) ! i))
          \<and> fst (get_chunk c x z r') = Inl (InconceivedChunk ''Chunk is not created'')
          \<and> is_LookupError (InconceivedChunk ''Chunk is not created'')
          \<and> \<not> is_RegionFileFormatError (InconceivedChunk ''Chunk is not created'')"
proof -
  define cs where "cs = contents (file' r)"
  define k where "k = nat (x + z * 32)"
  define Z :: "byte list" where "Z = [0, 0, 0, 0]"
  define cs1 where "cs1 = write_at cs (4 * k) Z"
  define cs2 where "cs2 = write_at cs1 (4 * k + 4096) Z"
  define r2 where "r2 = r\<lparr>file' := (file' r)\<lparr>contents := cs2, pos := 4100 + 4 * k\<rparr>\<rparr>"
  have k: "k < 1024" "nat (4 * (x + z * 32)) = 4 * k" "0 \<le> 4 * (x + z * 32)"
    "nat (4096 + 4 * (x + z * 32)) = 4 * k + 4096"
    using assms(2-5) by (auto simp: k_def)
  have len: "length cs1 = length cs" "length cs2 = length cs" "8192 \<le> length cs"
    using k(1) assms(1) by (auto simp: cs1_def cs2_def length_write_at Z_def cs_def)
  have packs: "pack_IB 0 0 = Inr [0, 0, 0, 0, 0]" "pack_I 0 = Inr [0, 0, 0, 0]"
    by (simp_all add: pack_IB_def pack_I_def be_bytes_def)
  have run: "unlink_chunk x z r = thenE parse_header parse_chunk_headers r2"
    using k(2,3,4)
    by (simp add: unlink_chunk_def bindE_apply liftE_apply file_seek_apply packs file_write_apply
        r2_def cs2_def cs1_def cs_def Z_def thenE_apply [where n = "thenE m n" for m n]
        thenE_apply [where n = "bindE m f" for m f])
  have "8192 \<le> length (contents (file' r2))" using len by (simp add: r2_def)
  from reparse_ok [OF this] obtain r' where r':
    "thenE parse_header parse_chunk_headers r2 = (Inr (), r')"
    "contents (file' r') = cs2"
    "map_of (header r') (x, z) = Some (slot_entry cs2 (int (length cs2)) k)"
    using assms(2-5) by (auto simp: r2_def k_def)
  have t1: "take 4 (drop (4 * k) cs2) = Z"
  proof -
    have "take 4 (drop (4 * k) cs2) = take 4 (drop (4 * k) cs1)"
      unfolding cs2_def using len k(1) by (intro take_drop_write_at_before) auto
    also have "\<dots> = Z"
      unfolding cs1_def by (rule take_drop_write_at_same') (simp add: Z_def)
    finally show ?thesis .
  qed
  have t2: "take 4 (drop (4 * k + 4096) cs2) = Z"
    unfolding cs2_def by (rule take_drop_write_at_same') (simp add: Z_def)
  have "slot_entry cs2 (int (length cs2)) k = (0, 0, 0, STATUS_CHUNK_NOT_CREATED)"
    by (simp add: slot_entry_def t1 t2 Let_def) (simp add: Z_def be_int_def header_status_def)
  then have get: "get_chunk c x z r' = (Inl (InconceivedChunk ''Chunk is not created''), r')"
    using r'(3) by (intro get_chunk_not_created) simp
  have nth: "cs2 ! i = (if 4 * k \<le> i \<and> i < 4 * k + 4 \<or> 4096 + 4 * k \<le> i \<and> i < 4096 + 4 * k + 4
                   then 0 else cs ! i)" if "i < length cs" for i
  proof -
    have 1: "cs1 ! i = (if 4 * k \<le> i \<and> i < 4 * k + 4 then 0 else cs ! i)"
      unfolding cs1_def using that by (subst nth_write_at) (auto simp: Z_def nth_Cons')
    have 2: "cs2 ! i = (if 4 * k + 4096 \<le> i \<and> i < 4 * k + 4096 + 4 then 0 else cs1 ! i)"
      unfolding cs2_def using that len by (subst nth_write_at) (auto simp: Z_def nth_Cons')
    show ?thesis unfolding 2 1 by auto
  qed
  show ?thesis
    unfolding k(2) cs_def [symmetric]
    using run r'(1,2) get len nth by auto
qed

theorem C8_witness:
  "8192 \<le> length (contents (file' \<lparr>file' = \<lparr>contents = replicate 12288 7, pos = 0\<rparr>, size' = 0,
       header = [], chunk_headers = []\<rparr>))
   \<and> (\<exists>r'. unlink_chunk 5 5 \<lparr>file' = \<lparr>contents = replicate 12288 7, pos = 0\<rparr>, size' = 0,
              header = [], chunk_headers = []\<rparr> = (Inr (), r')
          \<and> length (contents (file' r')) = 12288
          \<and> fst (get_chunk example_codec 5 5 r') = Inl (InconceivedChunk ''Chunk is not created''))"
  using C8_unlink_zeroes_two_fields [where r = "\<lparr>file' = \<lparr>contents = replicate 12288 7, pos = 0\<rparr>,
      size' = 0, header = [], chunk_headers = []\<rparr>" and x = 5 and z = 5 and c = example_codec]
  by auto

subsection \<open>C7: a record longer than its sectors is still read\<close>

text \<open>
  \<^bold>\<open>C7\<close>. In an opened container, let the slot \<open>(x, z)\<close> have the coarse status ok and let the
  four length bytes of its record give a length \<open>len\<close> with \<open>len + 4\<close> greater than the
  bytes of the sectors the table reserves. Then the fine status of the slot is mismatched
  lengths, with the length \<open>len\<close> of the record kept, and \<^verbatim>\<open>get_chunk\<close> reads with that
  length: the bytes it decodes are the \<open>len - 1\<close> bytes after the five bytes of the record
  header, all of them when the file holds them. When the compression byte is 2 and these
  bytes decompress with zlib to bytes that parse to a payload, \<^verbatim>\<open>get_chunk\<close> returns that
  payload, and likewise with gzip when the compression byte is 1. Whatever the bytes are,
  \<^verbatim>\<open>get_chunk\<close> raises no error of the region header or of the chunk header: the only
  error it can raise is \<^verbatim>\<open>ChunkDataError\<close>, for a compression byte above 2 or for bytes
  that do not decompress or parse; otherwise its result is what decompressing and parsing
  the bytes gives.
\<close>

theorem C7_mismatched_lengths_still_read:
  assumes "RegionFile_init fileobj = Inr r"
    and "0 \<le> x" "x < 32" "0 \<le> z" "z < 32"
    and "map_of (header r) (x, z) = Some (offset, sectorLength, ts, STATUS_CHUNK_OK)"
    and "unpack_I (take 4 (drop (nat (offset * 4096)) (contents fileobj))) = Inr len"
    and "len + 4 > sectorLength * 4096"
  shows "\<exists>compression chunk.
           map_of (chunk_headers r) (x, z)
             = Some (Some len, Some compression, STATUS_CHUNK_MISMATCHED_LENGTHS)
         \<and> chunk = take (nat (len - 1)) (drop (nat (offset * 4096 + 5)) (contents fileobj))
         \<and> (offset * 4096 + 4 + len \<le> int (length (contents fileobj))
              \<longrightarrow> int (length chunk) = len - 1)
         \<and> (\<forall>data p. compression = 2 \<and> zlib_decompress c chunk = Inr data
                \<and> nbt_parse c data = Inr p \<longrightarrow> fst (get_chunk c x z r) = Inr (Some p))
         \<and> (\<forall>data p. compression = 1 \<and> gzip_decompress c chunk = Inr data
                \<and> nbt_parse c data = Inr p \<longrightarrow> fst (get_chunk c x z r) = Inr (Some p))
         \<and> (\<forall>e. fst (get_chunk c x z r) = Inl e \<longrightarrow> (\<exists>msg. e = ChunkDataError msg))
         \<and> fst (get_chunk c x z r) =
             (if compression > 2
              then Inl (ChunkDataError ''Unknown chunk compression/format (%d)'')
              else decode_chunk c compression chunk)"
proof -
  define cs where "cs = contents fileobj"
  define k where "k = nat (x + z * 32)"
  have big: "8192 \<le> length cs"
  proof (rule ccontr)
    assume "\<not> 8192 \<le> length cs"
    then have "contents fileobj = []" using RegionFile_init_cases [OF assms(1)] by (simp add: cs_def)
    from RegionFile_init_tables_empty(4) [OF assms(1) this assms(2-5)] assms(6)
    show False by (simp add: status_defs)
  qed
  note tabs = RegionFile_init_tables [OF assms(1) big [unfolded cs_def], folded cs_def]
  have e: "slot_entry cs (int (length cs)) k = (offset, sectorLength, ts, STATUS_CHUNK_OK)"
    using tabs(4) [OF assms(2-5)] assms(6) by (simp add: k_def)
  have safe: "0 \<le> offset" "nat (offset * 4096) + 5 \<le> length cs"
    using slot_entry_safe [OF e] by auto
  have sl: "1 \<le> sectorLength"
  proof -
    have "sectorLength = uint (take 4 (drop (4 * k) cs) ! 3)"
      "STATUS_CHUNK_OK = header_status offset sectorLength (int (length cs))"
      using e by (auto simp: slot_entry_def Let_def)
    then have "0 \<le> sectorLength" "sectorLength \<noteq> 0"
      by (auto simp: header_status_def status_defs split: if_splits)
    then show ?thesis by simp
  qed
  have len: "len = be_int (take 4 (drop (nat (offset * 4096)) cs))"
    using assms(7) by (auto simp: unpack_I_def cs_def split: if_splits)
  have l1: "1 < len" "len \<noteq> 0" using assms(8) sl by auto
  define compression where "compression = uint (cs ! (nat (offset * 4096) + 4))"
  define chunk where "chunk = take (nat (len - 1)) (drop (nat (offset * 4096 + 5)) cs)"
  have ch: "map_of (chunk_headers r) (x, z) = Some (Some len,
      Some compression, STATUS_CHUNK_MISMATCHED_LENGTHS)"
    using tabs(5) [OF assms(2-5)] e len l1 assms(8)
    by (simp add: k_def chunk_entry_def status_defs Let_def compression_def)
  have g: "fst (get_chunk c x z r) =
     (if compression > 2
      then Inl (ChunkDataError ''Unknown chunk compression/format (%d)'')
      else decode_chunk c compression chunk)"
    unfolding chunk_def tabs(1) [symmetric]
    by (rule get_chunk_ok [OF assms(6) ch]) (use l1 safe in \<open>auto simp: status_defs\<close>)
  have n: "int (length chunk) = len - 1" if "offset * 4096 + 4 + len \<le> int (length cs)"
  proof -
    have "nat (len - 1) + nat (offset * 4096 + 5) \<le> length cs"
      using that l1 safe(1) by arith
    then show ?thesis using l1 by (simp add: chunk_def)
  qed
  have z2: "fst (get_chunk c x z r) = Inr (Some p)"
    if "compression = 2" "zlib_decompress c chunk = Inr data" "nbt_parse c data = Inr p"
    for data p
    using that by (simp add: g decode_chunk_def)
  have z1: "fst (get_chunk c x z r) = Inr (Some p)"
    if "compression = 1" "gzip_decompress c chunk = Inr data" "nbt_parse c data = Inr p"
    for data p
    using that by (simp add: g decode_chunk_def)
  have er: "\<exists>msg. e = ChunkDataError msg" if "fst (get_chunk c x z r) = Inl e" for e
    using that unfolding g by (auto simp: decode_chunk_def split: if_splits sum.splits)
  show ?thesis
    using ch n z2 z1 er g unfolding cs_def chunk_def by blast
qed

text \<open>
  A file of 16384 bytes whose slot \<open>(0, 0)\<close> reserves the one sector 2, where the record
  gives the length 4100 and the compression byte 2: the 4099 bytes after the record header
  are in the file, they decompress and parse with the codec of the examples, and
  \<^verbatim>\<open>get_chunk\<close> returns the payload of 4098 bytes.
\<close>

theorem C7_witness:
  "\<exists>r. RegionFile_init
          \<lparr>contents = example_file [0, 0, 2, 1] [0, 0, 16, 4, 2, 120, 1, 2, 3] 8192, pos = 0\<rparr> = Inr r
     \<and> map_of (header r) (0, 0) = Some (2, 1, 0, STATUS_CHUNK_OK)
     \<and> unpack_I (take 4 (drop (nat (2 * 4096))
          (example_file [0, 0, 2, 1] [0, 0, 16, 4, 2, 120, 1, 2, 3] 8192))) = Inr 4100
     \<and> (4100::int) + 4 > 1 * 4096
     \<and> 2 * 4096 + 4 + 4100
          \<le> int (length (example_file [0, 0, 2, 1] [0, 0, 16, 4, 2, 120, 1, 2, 3] 8192))
     \<and> map_of (chunk_headers r) (0, 0) = Some (Some 4100, Some 2, STATUS_CHUNK_MISMATCHED_LENGTHS)
     \<and> fst (get_chunk example_codec 0 0 r) = Inr (Some ([1, 2, 3] @ replicate 4095 0))"
proof -
  define F where "F = example_file [0, 0, 2, 1] [0, 0, 16, 4, 2, 120, 1, 2, 3] 8192"
  have len: "length F = 16384" unfolding F_def by (subst length_example_file) simp_all
  then have big: "8192 \<le> length (contents \<lparr>contents = F, pos = 0\<rparr>)" by simp
  obtain r where init: "RegionFile_init \<lparr>contents = F, pos = 0\<rparr> = Inr r"
    using RegionFile_init_ok [of F 0] len by auto
  have hdr: "map_of (header r) (0, 0) = Some (2, 1, 0, STATUS_CHUNK_OK)"
    using RegionFile_init_tables(4) [OF init big, of 0 0]
    by (simp add: len [unfolded F_def] F_def slot_entry_example_file_0 be_int_def header_status_def)
  have d: "drop 8192 F = [0, 0, 16, 4, 2, 120, 1, 2, 3] @ replicate 8183 0"
    by (simp add: F_def drop_example_file)
  have unp': "unpack_I (take 4 (drop (nat (2 * 4096)) F)) = Inr 4100"
    by (simp add: d unpack_I_def be_int_def)
  then have unp: "unpack_I (take 4 (drop (nat (2 * 4096)) (contents \<lparr>contents = F, pos = 0\<rparr>)))
      = Inr 4100"
    by (simp only: pyfile.select_convs)
  have gt: "(4100::int) + 4 > 1 * 4096" by simp
  have fits: "2 * 4096 + 4 + 4100 \<le> int (length F)" by (simp add: len)
  have "drop 8197 F = drop 5 (drop 8192 F)" by simp
  then have chunk: "take (nat (4100 - 1)) (drop (nat (2 * 4096 + 5)) F)
      = 120 # [1, 2, 3] @ replicate 4095 0"
    by (simp add: d)
  have dec: "zlib_decompress example_codec (120 # [1, 2, 3] @ replicate 4095 0)
        = Inr ([1, 2, 3] @ replicate 4095 0)"
      "nbt_parse example_codec ([1, 2, 3] @ replicate 4095 0) = Inr ([1, 2, 3] @ replicate 4095 0)"
    by (simp_all add: example_codec_def strip_magic_def)
  have r0: "(0::int) \<le> 0" "(0::int) < 32" by simp_all
  from C7_mismatched_lengths_still_read [OF init r0(1) r0(2) r0(1) r0(2) hdr unp gt,
      of example_codec, unfolded pyfile.select_convs]
  obtain compression where
    ch: "map_of (chunk_headers r) (0, 0)
           = Some (Some 4100, Some compression, STATUS_CHUNK_MISMATCHED_LENGTHS)"
    and g: "fst (get_chunk example_codec 0 0 r) =
             (if compression > 2
              then Inl (ChunkDataError ''Unknown chunk compression/format (%d)'')
              else decode_chunk example_codec compression
                (take (nat (4100 - 1)) (drop (nat (2 * 4096 + 5)) F)))"
    and z2: "\<And>data p. compression = 2 \<Longrightarrow>
          zlib_decompress example_codec (take (nat (4100 - 1)) (drop (nat (2 * 4096 + 5)) F)) = Inr data
          \<Longrightarrow> nbt_parse example_codec data = Inr p
          \<Longrightarrow> fst (get_chunk example_codec 0 0 r) = Inr (Some p)"
    by blast
  have "drop 8192 F ! 4 = F ! (8192 + 4)" by (rule nth_drop) (simp add: len)
  then have c2: "F ! 8196 = 2" by (simp add: d)
  have "chunk_entry F (int (length F)) (2, 1, 0, STATUS_CHUNK_OK)
      = (Some 4100, Some 2, STATUS_CHUNK_MISMATCHED_LENGTHS)"
    by (simp add: chunk_entry_def Let_def d c2 be_int_def status_defs)
  then have "compression = 2"
    using RegionFile_init_tables(5) [OF init big, of 0 0] ch
    by (simp add: len [unfolded F_def] F_def slot_entry_example_file_0 be_int_def header_status_def)
  from z2 [OF this, unfolded chunk, OF dec] ch \<open>compression = 2\<close>
  show ?thesis
    unfolding F_def [symmetric] using init hdr unp' gt fits by blast
qed

subsection \<open>C5: the compression byte of a record\<close>

text \<open>
  \<^bold>\<open>C5\<close> fails on the code for the compression byte 0: \<^verbatim>\<open>get_chunk\<close> raises the error of
  an unknown compression only for a byte above 2. In the file below the slot \<open>(0, 0)\<close>
  points to sector 2, where a record of length 5 has the compression byte 0 and the four
  bytes 10, 0, 0, 0 (an empty compound tag, not compressed). With any codec, \<^verbatim>\<open>get_chunk\<close>
  hands these four bytes to the parser as they are and returns what the parser returns;
  with the codec of the examples that is the tree itself.
\<close>

theorem C5_compression_zero_is_parsed:
  "\<exists>r. RegionFile_init \<lparr>contents = example_file [0, 0, 2, 1] [0, 0, 0, 5, 0, 10, 0, 0, 0] 4096,
           pos = 0\<rparr> = Inr r
     \<and> map_of (header r) (0, 0) = Some (2, 1, 0, STATUS_CHUNK_OK)
     \<and> map_of (chunk_headers r) (0, 0) = Some (Some 5, Some 0, STATUS_CHUNK_OK)
     \<and> fst (get_chunk c 0 0 r) =
          (case nbt_parse c [10, 0, 0, 0] of
             Inr nbt \<Rightarrow> Inr (Some nbt)
           | Inl err \<Rightarrow> if err \<noteq> [] then Inl (ChunkDataError err) else Inr None)
     \<and> fst (get_chunk example_codec 0 0 r) = Inr (Some [10, 0, 0, 0])"
proof -
  define F where "F = example_file [0, 0, 2, 1] [0, 0, 0, 5, 0, 10, 0, 0, 0] 4096"
  have len: "length F = 12288" unfolding F_def by (subst length_example_file) simp_all
  then have big: "8192 \<le> length (contents \<lparr>contents = F, pos = 0\<rparr>)" by simp
  obtain r where init: "RegionFile_init \<lparr>contents = F, pos = 0\<rparr> = Inr r"
    using RegionFile_init_ok [of F 0] len by auto
  note tabs = RegionFile_init_tables [OF init big]
  have e: "slot_entry F 12288 0 = (2, 1, 0, STATUS_CHUNK_OK)"
    by (simp add: F_def slot_entry_example_file_0 be_int_def header_status_def)
  have hdr: "map_of (header r) (0, 0) = Some (2, 1, 0, STATUS_CHUNK_OK)"
    using tabs(4) [of 0 0] by (simp add: len e)
  have d: "drop 8192 F = [0, 0, 0, 5, 0, 10, 0, 0, 0] @ replicate 4087 0"
    by (simp add: F_def drop_example_file)
  have n: "F ! 8196 = 0"
    using arg_cong [OF d, of "\<lambda>xs. xs ! 4"] len by (simp add: nth_append)
  have ch: "map_of (chunk_headers r) (0, 0) = Some (Some 5, Some 0, STATUS_CHUNK_OK)"
    using tabs(5) [of 0 0] by (simp add: len e chunk_entry_def d n be_int_def status_defs)
  have rd: "take (nat (5 - 1)) (drop (nat (2 * 4096 + 5)) (contents (file' r))) = [10, 0, 0, 0]"
  proof -
    have "drop 8197 F = drop 5 (drop 8192 F)" by simp
    then show ?thesis by (simp add: tabs(1) d)
  qed
  have g: "fst (get_chunk c' 0 0 r) = decode_chunk c' 0 [10, 0, 0, 0]" for c' :: "'b codec"
    using get_chunk_ok [OF hdr ch, of c'] rd by (simp add: status_defs)
  have "fst (get_chunk example_codec 0 0 r) = Inr (Some [10, 0, 0, 0])"
    unfolding g [of example_codec] by (simp add: decode_chunk_def example_codec_def)
  moreover have "fst (get_chunk c 0 0 r) =
          (case nbt_parse c [10, 0, 0, 0] of
             Inr nbt \<Rightarrow> Inr (Some nbt)
           | Inl err \<Rightarrow> if err \<noteq> [] then Inl (ChunkDataError err) else Inr None)"
    by (simp add: g [of c] decode_chunk_def split: sum.splits)
  ultimately show ?thesis unfolding F_def [symmetric] using init hdr ch by blast
qed

subsection \<open>C1: writing a payload and reading it back\<close>




subsection \<open>C4: the first write to an empty container\<close>

text \<open>
  \<^bold>\<open>C4\<close> fails on the code. A file of no bytes opens as a container with every slot not
  created; then \<^verbatim>\<open>write_chunk\<close> at \<open>(5, 5)\<close> raises \<^verbatim>\<open>IndexError\<close>, for every payload, codec
  and time: the sorted list of the entries with a nonzero offset is empty and line 382
  reads its first element. Nothing is written and the tables stay as they were.
\<close>

theorem C4_first_write_raises_IndexError:
  "\<not> isl (RegionFile_init \<lparr>contents = [], pos = 0\<rparr>)
   \<and> write_chunk c now 5 5 p (projr (RegionFile_init \<lparr>contents = [], pos = 0\<rparr>))
        = (Inl IndexError, projr (RegionFile_init \<lparr>contents = [], pos = 0\<rparr>))
   \<and> contents (file' (projr (RegionFile_init \<lparr>contents = [], pos = 0\<rparr>))) = []"
proof -
  obtain r where init: "RegionFile_init \<lparr>contents = [], pos = 0\<rparr> = Inr r"
    using RegionFile_init_empty [of 0] by blast
  have "write_chunk c now 5 5 p r = (Inl IndexError, r)"
    by (rule write_chunk_empty_container [OF init]) simp_all
  moreover have "contents (file' r) = []"
    by (rule RegionFile_init_tables_empty(1) [OF init]) simp
  ultimately show ?thesis by (simp add: init)
qed

subsection \<open>C9: a record of more than 255 sectors\<close>




subsection \<open>C6: a record appended at the end of the file\<close>

text \<open>
  \<^bold>\<open>C6\<close>, as the code has it. In an opened container, let the search of \<^verbatim>\<open>write_chunk\<close> for
  the sectors of the record of \<open>(x, z)\<close> end with \<^verbatim>\<open>pad_end\<close> set, as it does when no gap
  between the records is large enough; let the compressed bytes be not empty, and let the
  length of the record and the time fit four bytes. Then the sector of the record is
  \<^verbatim>\<open>bytes_to_sector\<close> of the length of the file less one, plus one (lines 408 to 410): that
  is \<^verbatim>\<open>bytes_to_sector\<close> of the length of the file plus one, unless the length of the
  file is one more than a multiple of 4096, where it is \<^verbatim>\<open>bytes_to_sector\<close> of the length
  of the file itself. The sector starts at or after the end of the file. After
  \<^verbatim>\<open>write_chunk\<close> the file ends with the last sector of the record: its length is
  \<open>(sector + nsectors) * 4096\<close>, the five bytes of the record header are at
  \<open>sector * 4096\<close>, and every byte after the compressed bytes is zero.
\<close>

theorem C6_append_at_end_of_file:
  fixes c :: "'p codec"
  assumes "RegionFile_init fileobj = Inr r"
    and "0 \<le> x" "x < 32" "0 \<le> z" "z < 32"
    and "nsectors = bytes_to_sector (int (length (zlib_compress c (nbt_write c p))) + 5) 4096"
    and "find_sector x z nsectors r = (Inr (sector, True), r1)"
    and "zlib_compress c (nbt_write c p) \<noteq> []"
    and "int (length (zlib_compress c (nbt_write c p))) + 1 < 4294967296"
    and "0 \<le> now" "now < 4294967296"
  shows "sector = bytes_to_sector (int (length (contents fileobj)) - 1) 4096 + 1
     \<and> (int (length (contents fileobj)) mod 4096 \<noteq> 1
          \<longrightarrow> sector = bytes_to_sector (int (length (contents fileobj))) 4096 + 1)
     \<and> (int (length (contents fileobj)) mod 4096 = 1
          \<longrightarrow> sector = bytes_to_sector (int (length (contents fileobj))) 4096)
     \<and> int (length (contents fileobj)) \<le> sector * 4096
     \<and> length (contents (file' (snd (write_chunk c now x z p r))))
          = nat ((sector + nsectors) * 4096)
     \<and> take 5 (drop (nat (sector * 4096)) (contents (file' (snd (write_chunk c now x z p r)))))
          = be_bytes (int (length (zlib_compress c (nbt_write c p))) + 1) @ [2]
     \<and> drop (nat (sector * 4096) + (length (zlib_compress c (nbt_write c p)) + 5))
          (contents (file' (snd (write_chunk c now x z p r))))
          = replicate (nat (nsectors * 4096) - (length (zlib_compress c (nbt_write c p)) + 5)) 0"
proof -
  have big: "8192 \<le> length (contents fileobj)"
    using find_sector_pad_opened [OF assms(1-5) assms(7)] .
  note tabs = RegionFile_init_tables [OF assms(1) big]
  have big': "8192 \<le> length (contents (file' r))" using big by (simp add: tabs(1))
  have s: "sector = bytes_to_sector (int (length (contents fileobj)) - 1) 4096 + 1"
    using find_sector_pad [OF assms(7)] by (simp add: tabs(1))
  have s1: "sector = bytes_to_sector (int (length (contents fileobj))) 4096 + 1"
    if "int (length (contents fileobj)) mod 4096 \<noteq> 1"
    using s bytes_to_sector_pred [OF that] by simp
  have s2: "sector = bytes_to_sector (int (length (contents fileobj))) 4096"
    if "int (length (contents fileobj)) mod 4096 = 1"
    using s bytes_to_sector_pred_1 [OF that] by simp
  note ap = write_chunk_append [OF assms(7) assms(6) assms(2-5) big' assms(8-11)]
  show ?thesis
    using s s1 s2 ap(1) ap(2) ap(3) ap(4) by (simp only: tabs(1)) blast
qed

text \<open>
  The container of the examples, 12288 bytes with one record in sector 2: a payload of no
  bytes written at \<open>(1, 0)\<close> goes to sector 4, and the file then has the five sectors 0 to 4.
\<close>

theorem C6_witness:
  "\<exists>r r1. RegionFile_init
        \<lparr>contents = example_file [0, 0, 2, 1] [0, 0, 0, 2, 2, 120] 4096, pos = 0\<rparr> = Inr r
     \<and> find_sector 1 0 (bytes_to_sector (int (length (zlib_compress example_codec
          (nbt_write example_codec []))) + 5) 4096) r = (Inr (4, True), r1)
     \<and> zlib_compress example_codec (nbt_write example_codec []) \<noteq> []
     \<and> int (length (zlib_compress example_codec (nbt_write example_codec []))) + 1 < 4294967296
     \<and> 4 = bytes_to_sector (int (length
           (example_file [0, 0, 2, 1] [0, 0, 0, 2, 2, 120] 4096)) - 1) 4096 + 1
     \<and> length (contents (file' (snd (write_chunk example_codec 0 1 0 [] r)))) = 20480
     \<and> take 5 (drop 16384 (contents (file' (snd (write_chunk example_codec 0 1 0 [] r)))))
          = [0, 0, 0, 2, 2]
     \<and> drop 16390 (contents (file' (snd (write_chunk example_codec 0 1 0 [] r))))
          = replicate 4090 0"
proof -
  define F where "F = example_file [0, 0, 2, 1] [0, 0, 0, 2, 2, 120] 4096"
  obtain r where init: "RegionFile_init \<lparr>contents = F, pos = 0\<rparr> = Inr r"
    unfolding F_def using example_container_opens [of "[0, 0, 0, 2, 2, 120]" 4096] by auto
  have ns: "bytes_to_sector (int (length (zlib_compress example_codec
          (nbt_write example_codec []))) + 5) 4096 = 1"
    by (simp add: example_codec_def bytes_to_sector_def)
  have fs: "find_sector 1 0 (bytes_to_sector (int (length (zlib_compress example_codec
          (nbt_write example_codec []))) + 5) 4096) r
      = (Inr (4, True), r\<lparr>file' := (file' r)\<lparr>pos := 8192 + 4096\<rparr>\<rparr>)"
    unfolding ns
    using example_container_find_sector [OF init [unfolded F_def], of 1 0 1]
    by (simp add: bytes_to_sector_def)
  have ne: "zlib_compress example_codec (nbt_write example_codec []) \<noteq> []"
    and n32: "int (length (zlib_compress example_codec (nbt_write example_codec []))) + 1
        < 4294967296"
    by (simp_all add: example_codec_def)
  have r0: "(0::int) \<le> 1" "(1::int) < 32" "(0::int) \<le> 0" "(0::int) < 32" "(0::int) < 4294967296"
    by simp_all
  note T = C6_append_at_end_of_file [OF init r0(1-4) refl fs ne n32 r0(3) r0(5),
      unfolded ns pyfile.select_convs]
  have len: "length F = 12288" unfolding F_def by (subst length_example_file) simp_all
  have bb: "be_bytes 2 = [0, 0, 0, 2]" by (simp add: be_bytes_def)
  have c1: "zlib_compress example_codec (nbt_write example_codec []) = [120]"
    by (simp add: example_codec_def)
  have "4 = bytes_to_sector (int (length F) - 1) 4096 + 1"
    and "length (contents (file' (snd (write_chunk example_codec 0 1 0 [] r)))) = 20480"
    and "take 5 (drop 16384 (contents (file' (snd (write_chunk example_codec 0 1 0 [] r)))))
          = [0, 0, 0, 2, 2]"
    and "drop 16390 (contents (file' (snd (write_chunk example_codec 0 1 0 [] r))))
          = replicate 4090 0"
    using T by (simp_all add: c1 bb)
  then show ?thesis
    unfolding F_def [symmetric] using init fs ne n32 by blast
qed

text \<open>
  The claim as stated gives the sector as \<^verbatim>\<open>bytes_to_sector\<close> of the length of the file
  plus one, for every length. On a file of 12289 bytes, one byte more than three sectors,
  that is sector 5; the code, which takes \<^verbatim>\<open>bytes_to_sector\<close> of the length less one, puts
  the record into sector 4, and the table then names sector 4.
\<close>

theorem C6_counterexample:
  "\<not> isl (RegionFile_init
        \<lparr>contents = example_file [0, 0, 2, 1] [0, 0, 0, 2, 2, 120] 4097, pos = 0\<rparr>)
   \<and> length (example_file [0, 0, 2, 1] [0, 0, 0, 2, 2, 120] 4097) = 12289
   \<and> bytes_to_sector (int (length (example_file [0, 0, 2, 1] [0, 0, 0, 2, 2, 120] 4097))) 4096 + 1
        = 5
   \<and> bytes_to_sector (int (length (zlib_compress example_codec
        (nbt_write example_codec []))) + 5) 4096 = 1
   \<and> fst (find_sector 1 0 1 (projr (RegionFile_init
        \<lparr>contents = example_file [0, 0, 2, 1] [0, 0, 0, 2, 2, 120] 4097, pos = 0\<rparr>)))
        = Inr (4, True)
   \<and> fst (write_chunk example_codec 0 1 0 [] (projr (RegionFile_init
        \<lparr>contents = example_file [0, 0, 2, 1] [0, 0, 0, 2, 2, 120] 4097, pos = 0\<rparr>)))
        = Inr ()
   \<and> map_of (header (snd (write_chunk example_codec 0 1 0 [] (projr (RegionFile_init
        \<lparr>contents = example_file [0, 0, 2, 1] [0, 0, 0, 2, 2, 120] 4097, pos = 0\<rparr>))))) (1, 0)
        = Some (4, 1, 0, STATUS_CHUNK_OK)"
proof -
  define F where "F = example_file [0, 0, 2, 1] [0, 0, 0, 2, 2, 120] 4097"
  obtain r where init: "RegionFile_init \<lparr>contents = F, pos = 0\<rparr> = Inr r"
    unfolding F_def using example_container_opens [of "[0, 0, 0, 2, 2, 120]" 4097] by auto
  have len: "length F = 12289" unfolding F_def by (subst length_example_file) simp_all
  have big: "8192 \<le> length (contents \<lparr>contents = F, pos = 0\<rparr>)" using len by simp
  note tabs = RegionFile_init_tables [OF init big]
  have b5: "bytes_to_sector (int (length F)) 4096 + 1 = 5"
    by (simp add: len bytes_to_sector_def)
  have ns: "bytes_to_sector (int (length (zlib_compress example_codec
          (nbt_write example_codec []))) + 5) 4096 = 1"
    by (simp add: example_codec_def bytes_to_sector_def)
  have fs: "find_sector 1 0 1 r = (Inr (4, True), r\<lparr>file' := (file' r)\<lparr>pos := 8192 + 4097\<rparr>\<rparr>)"
    using example_container_find_sector [OF init [unfolded F_def], of 1 0 1]
    by (simp add: bytes_to_sector_def)
  have c1: "zlib_compress example_codec (nbt_write example_codec []) = [120]"
    by (simp add: example_codec_def)
  have "\<exists>r'. write_chunk example_codec 0 1 0 [] r = (Inr (), r')
     \<and> map_of (header r') (1, 0) = Some (4, 1, 0, STATUS_CHUNK_OK)
     \<and> map_of (chunk_headers r') (1, 0) = Some (Some 2, Some 2, STATUS_CHUNK_OK)
     \<and> take (Suc 0) (drop 16389 (contents (file' r'))) = [120]
     \<and> length (contents (file' r')) = 20480"
    using write_chunk_ok [OF fs _ c1 [symmetric], of 0]
    by (simp add: tabs(1) len bytes_to_sector_def)
  then obtain r' where "write_chunk example_codec 0 1 0 [] r = (Inr (), r')"
    "map_of (header r') (1, 0) = Some (4, 1, 0, STATUS_CHUNK_OK)" by blast
  then have "fst (write_chunk example_codec 0 1 0 [] r) = Inr ()"
    "map_of (header (snd (write_chunk example_codec 0 1 0 [] r))) (1, 0)
        = Some (4, 1, 0, STATUS_CHUNK_OK)"
    by auto
  then show ?thesis
    unfolding F_def [symmetric] using init len b5 ns fs by simp
qed

end
